theory Spec2Isabelle
  imports Complex_Main "HOL-Library.AList" "HOL-Library.Sublist"
begin

section \<open>JavaScript values\<close>

text \<open>
  The relay handles parsed JSON and plain JavaScript objects. A value is modelled by
  \<open>jsval\<close>; an object is an association list whose first binding of a key is the
  property's value. Numbers are exact reals (token counts are integers far below 2^53,
  where double arithmetic is exact); the two non-finite kinds of number that
  \<open>Number\<close> can produce are kept apart as \<open>JNaN\<close> and \<open>JInf\<close>.
\<close>

datatype jsval =
    JUndefined
  | JNull
  | JBool bool
  | JNum real
  | JNaN
  | JInf bool
  | JStr string
  | JArr "jsval list"
  | JObj "(string \<times> jsval) list"

datatype js_error = TypeError | StoreError

text \<open>Property read \<open>v.k\<close> on a value that is neither \<open>undefined\<close> nor \<open>null\<close>
  (those two are tested by the callers, where the source would throw).\<close>

fun getp :: "jsval \<Rightarrow> string \<Rightarrow> jsval" where
  "getp (JObj kvs) k = (case map_of kvs k of Some v \<Rightarrow> v | None \<Rightarrow> JUndefined)"
| "getp v k = JUndefined"

definition nullish :: "jsval \<Rightarrow> bool" where
  "nullish v = (v = JUndefined \<or> v = JNull)"

text \<open>\<open>a ?? b\<close>, \<open>v?.k\<close>, truthiness and \<open>a || b\<close>.\<close>

definition coalesce :: "jsval \<Rightarrow> jsval \<Rightarrow> jsval" where
  "coalesce a b = (if nullish a then b else a)"

definition opt_getp :: "jsval \<Rightarrow> string \<Rightarrow> jsval" where
  "opt_getp v k = (if nullish v then JUndefined else getp v k)"

fun truthy :: "jsval \<Rightarrow> bool" where
  "truthy JUndefined = False"
| "truthy JNull = False"
| "truthy (JBool b) = b"
| "truthy (JNum r) = (r \<noteq> 0)"
| "truthy JNaN = False"
| "truthy (JInf s) = True"
| "truthy (JStr s) = (s \<noteq> [])"
| "truthy (JArr xs) = True"
| "truthy (JObj kvs) = True"

definition or_js :: "jsval \<Rightarrow> jsval \<Rightarrow> jsval" where
  "or_js a b = (if truthy a then a else b)"

text \<open>
  \<open>Number(value)\<close>: \<open>None\<close> stands for a result that \<open>Number.isFinite\<close> rejects
  (\<open>NaN\<close> or an infinity). The conversion of strings and arrays (the StringToNumber
  grammar, \<open>Array.prototype.toString\<close>) belongs to the language runtime; it is the
  parameter \<open>str2num\<close>, so every result below holds for any such conversion.
\<close>

fun Number_js :: "(jsval \<Rightarrow> real option) \<Rightarrow> jsval \<Rightarrow> real option" where
  "Number_js str2num JUndefined = None"
| "Number_js str2num JNull = Some 0"
| "Number_js str2num (JBool b) = Some (if b then 1 else 0)"
| "Number_js str2num (JNum r) = Some r"
| "Number_js str2num JNaN = None"
| "Number_js str2num (JInf s) = None"
| "Number_js str2num (JStr s) = str2num (JStr s)"
| "Number_js str2num (JArr xs) = str2num (JArr xs)"
| "Number_js str2num (JObj kvs) = None"

section \<open>Usage extractor (droidRelayService.js)\<close>

text \<open>The local arrow function \<open>toNumber\<close> of \<open>_normalizeUsageSnapshot\<close> and
  \<open>_getTotalTokens\<close>.\<close>

definition toNumber :: "(jsval \<Rightarrow> real option) \<Rightarrow> jsval \<Rightarrow> real" where
  "toNumber str2num v =
     (if v = JUndefined \<or> v = JNull \<or> v = JStr [] then 0
      else case Number_js str2num v of
             None \<Rightarrow> 0
           | Some num \<Rightarrow> max 0 num)"

text \<open>The raw values \<open>_normalizeUsageSnapshot\<close> reads, each a chain of \<open>??\<close>.\<close>

definition raw_input :: "jsval \<Rightarrow> jsval" where
  "raw_input u =
     coalesce (getp u ''input_tokens'')
       (coalesce (getp u ''prompt_tokens'')
          (coalesce (getp u ''inputTokens'') (getp u ''total_input_tokens'')))"

definition raw_output :: "jsval \<Rightarrow> jsval" where
  "raw_output u =
     coalesce (getp u ''output_tokens'')
       (coalesce (getp u ''completion_tokens'') (getp u ''outputTokens''))"

definition raw_cache_read :: "jsval \<Rightarrow> jsval" where
  "raw_cache_read u =
     coalesce (getp u ''cache_read_input_tokens'')
       (coalesce (getp u ''cacheReadTokens'')
          (opt_getp (getp u ''input_tokens_details'') ''cached_tokens''))"

definition rawCacheCreateTokens :: "jsval \<Rightarrow> jsval" where
  "rawCacheCreateTokens u =
     coalesce (getp u ''cache_creation_input_tokens'')
       (coalesce (getp u ''cacheCreateTokens'')
          (coalesce (getp u ''cache_tokens'') (JNum 0)))"

definition raw_ephemeral5m :: "jsval \<Rightarrow> jsval" where
  "raw_ephemeral5m u =
     coalesce (opt_getp (getp u ''cache_creation'') ''ephemeral_5m_input_tokens'')
       (getp u ''ephemeral_5m_input_tokens'')"

definition raw_ephemeral1h :: "jsval \<Rightarrow> jsval" where
  "raw_ephemeral1h u =
     coalesce (opt_getp (getp u ''cache_creation'') ''ephemeral_1h_input_tokens'')
       (getp u ''ephemeral_1h_input_tokens'')"

text \<open>
  \<open>_normalizeUsageSnapshot(usageData = {})\<close>. The default parameter replaces
  \<open>undefined\<close> only; on \<open>null\<close> the first property read throws.
\<close>

definition normalizeUsageSnapshot ::
  "(jsval \<Rightarrow> real option) \<Rightarrow> jsval \<Rightarrow> js_error + jsval" where
  "normalizeUsageSnapshot str2num usageData0 =
     (let usageData = (if usageData0 = JUndefined then JObj [] else usageData0) in
      if usageData = JNull then Inl TypeError
      else
        let inputTokens = toNumber str2num (raw_input usageData);
            outputTokens = toNumber str2num (raw_output usageData);
            cacheReadTokens = toNumber str2num (raw_cache_read usageData);
            cacheCreateTokens0 = toNumber str2num (rawCacheCreateTokens usageData);
            ephemeral5m = toNumber str2num (raw_ephemeral5m usageData);
            ephemeral1h = toNumber str2num (raw_ephemeral1h usageData);
            cacheCreateTokens =
              (if cacheCreateTokens0 = 0 \<and> (ephemeral5m > 0 \<or> ephemeral1h > 0)
               then ephemeral5m + ephemeral1h else cacheCreateTokens0);
            normalized =
              [(''input_tokens'', JNum inputTokens),
               (''output_tokens'', JNum outputTokens),
               (''cache_creation_input_tokens'', JNum cacheCreateTokens),
               (''cache_read_input_tokens'', JNum cacheReadTokens)]
        in Inr (JObj
             (if ephemeral5m > 0 \<or> ephemeral1h > 0
              then normalized @
                [(''cache_creation'',
                  JObj [(''ephemeral_5m_input_tokens'', JNum ephemeral5m),
                        (''ephemeral_1h_input_tokens'', JNum ephemeral1h)])]
              else normalized)))"

text \<open>\<open>_getTotalTokens(usageObject = {})\<close>.\<close>

definition getTotalTokens :: "(jsval \<Rightarrow> real option) \<Rightarrow> jsval \<Rightarrow> js_error + real" where
  "getTotalTokens str2num usageObject0 =
     (let usageObject = (if usageObject0 = JUndefined then JObj [] else usageObject0) in
      if usageObject = JNull then Inl TypeError
      else Inr (toNumber str2num (getp usageObject ''input_tokens'') +
                toNumber str2num (getp usageObject ''output_tokens'') +
                toNumber str2num (getp usageObject ''cache_creation_input_tokens'') +
                toNumber str2num (getp usageObject ''cache_read_input_tokens'')))"

subsection \<open>Recording usage\<close>

text \<open>
  Modelled from the spec: the two usage sinks (\<open>apiKeyService.recordUsageWithDetails\<close>
  and \<open>redis.incrementAccountUsage\<close>) are collaborators outside the relay
  (\<open>RecordUsage(callerIdentity, accountId, model, UsageSnapshot)\<close>). Each is a log of
  the calls it received; \<open>sinks_up = False\<close> makes a call throw before it records
  anything, which \<open>_recordUsage\<close> catches.
\<close>

record key_usage_call =
  ku_keyId :: string
  ku_usage :: jsval
  ku_model :: string
  ku_accountId :: "string option"

record account_usage_call =
  au_accountId :: string
  au_totalTokens :: real
  au_input :: jsval
  au_output :: jsval
  au_cacheCreate :: jsval
  au_cacheRead :: jsval
  au_model :: string

record usage_state =
  key_usage :: "key_usage_call list"
  account_usage :: "account_usage_call list"
  sinks_up :: bool

text \<open>An account as the relay sees it: \<open>_extractAccountId\<close> tries three fields; an
  empty string is a missing (falsy) one.\<close>

record account_ref =
  ref_id :: string
  ref_accountId :: string
  ref_account_id :: string
  authenticationMethod :: "string option"
  ref_endpointType :: string

definition extractAccountId :: "account_ref option \<Rightarrow> string option" where
  "extractAccountId account =
     (case account of
        None \<Rightarrow> None
      | Some a \<Rightarrow>
          if ref_id a \<noteq> [] then Some (ref_id a)
          else if ref_accountId a \<noteq> [] then Some (ref_accountId a)
          else if ref_account_id a \<noteq> [] then Some (ref_account_id a)
          else None)"

text \<open>
  \<open>_recordUsage(apiKeyData, account, model, usageObject = {})\<close>. \<open>keyId\<close> is
  \<open>apiKeyData?.id\<close> (\<open>None\<close> when missing or empty). The total is computed before the
  \<open>try\<close>, so a \<open>null\<close> usage object is the one input on which the function throws.
\<close>

definition recordUsage ::
  "(jsval \<Rightarrow> real option) \<Rightarrow> usage_state \<Rightarrow> string option \<Rightarrow> account_ref option \<Rightarrow>
     string \<Rightarrow> jsval \<Rightarrow> js_error + usage_state" where
  "recordUsage str2num st keyId account model usageObject0 =
     (case getTotalTokens str2num usageObject0 of
        Inl e \<Rightarrow> Inl e
      | Inr totalTokens \<Rightarrow>
          if totalTokens \<le> 0 then Inr st
          else
            let usageObject = (if usageObject0 = JUndefined then JObj [] else usageObject0);
                accountId = extractAccountId account
            in (case keyId of
                 Some k \<Rightarrow>
                   if sinks_up st
                   then Inr (st\<lparr>key_usage := key_usage st @
                          [\<lparr>ku_keyId = k, ku_usage = usageObject, ku_model = model,
                            ku_accountId = accountId\<rparr>]\<rparr>)
                   else Inr st
               | None \<Rightarrow>
                   (case accountId of
                      Some a \<Rightarrow>
                        if sinks_up st
                        then Inr (st\<lparr>account_usage := account_usage st @
                               [\<lparr>au_accountId = a, au_totalTokens = totalTokens,
                                 au_input = or_js (getp usageObject ''input_tokens'') (JNum 0),
                                 au_output = or_js (getp usageObject ''output_tokens'') (JNum 0),
                                 au_cacheCreate =
                                   or_js (getp usageObject ''cache_creation_input_tokens'') (JNum 0),
                                 au_cacheRead =
                                   or_js (getp usageObject ''cache_read_input_tokens'') (JNum 0),
                                 au_model = model\<rparr>]\<rparr>)
                        else Inr st
                    | None \<Rightarrow> Inr st)))"

text \<open>\<open>_recordUsageFromStreamData\<close> (the streaming path, at the upstream's \<open>end\<close>) and
  the recording step of \<open>_handleNonStreamResponse\<close> (the buffered path:
  \<open>data.usage || {}\<close>, then \<open>_recordUsage\<close> unless \<open>skipUsageRecord\<close>).\<close>

definition recordUsageFromStreamData ::
  "(jsval \<Rightarrow> real option) \<Rightarrow> usage_state \<Rightarrow> jsval \<Rightarrow> string option \<Rightarrow>
     account_ref option \<Rightarrow> string \<Rightarrow> js_error + (usage_state \<times> jsval)" where
  "recordUsageFromStreamData str2num st usageData keyId account model =
     (case normalizeUsageSnapshot str2num usageData of
        Inl e \<Rightarrow> Inl e
      | Inr normalizedUsage \<Rightarrow>
          (case recordUsage str2num st keyId account model normalizedUsage of
             Inl e \<Rightarrow> Inl e
           | Inr st' \<Rightarrow> Inr (st', normalizedUsage)))"

definition handleNonStreamResponse_usage ::
  "(jsval \<Rightarrow> real option) \<Rightarrow> usage_state \<Rightarrow> jsval \<Rightarrow> string option \<Rightarrow>
     account_ref option \<Rightarrow> string \<Rightarrow> bool \<Rightarrow> js_error + (usage_state \<times> jsval)" where
  "handleNonStreamResponse_usage str2num st data keyId account model skipUsageRecord =
     (if nullish data then Inl TypeError
      else
        let usage = or_js (getp data ''usage'') (JObj []) in
        case normalizeUsageSnapshot str2num usage of
          Inl e \<Rightarrow> Inl e
        | Inr normalizedUsage \<Rightarrow>
            if skipUsageRecord then Inr (st, normalizedUsage)
            else (case recordUsage str2num st keyId account model normalizedUsage of
                    Inl e \<Rightarrow> Inl e
                  | Inr st' \<Rightarrow> Inr (st', normalizedUsage)))"

text \<open>The cache-creation count as \<open>_normalizeUsageSnapshot\<close> computes it, and a
  snapshot whose four counts are all zero.\<close>

definition cache_create_rule :: "(jsval \<Rightarrow> real option) \<Rightarrow> jsval \<Rightarrow> real" where
  "cache_create_rule str2num u =
     (if toNumber str2num (rawCacheCreateTokens u) = 0 \<and>
         (toNumber str2num (raw_ephemeral5m u) > 0 \<or> toNumber str2num (raw_ephemeral1h u) > 0)
      then toNumber str2num (raw_ephemeral5m u) + toNumber str2num (raw_ephemeral1h u)
      else toNumber str2num (rawCacheCreateTokens u))"

definition zero_snapshot :: "jsval \<Rightarrow> bool" where
  "zero_snapshot n =
     (getp n ''input_tokens'' = JNum 0 \<and> getp n ''output_tokens'' = JNum 0 \<and>
      getp n ''cache_creation_input_tokens'' = JNum 0 \<and>
      getp n ''cache_read_input_tokens'' = JNum 0)"

section \<open>Strings\<close>

text \<open>
  Strings are lists of characters. \<open>toUpperCase\<close> and \<open>toLowerCase\<close> convert
  the ASCII letters (the error codes, keywords and endpoint names the relay compares are
  ASCII); \<open>str_includes s pat\<close> is \<open>s.includes(pat)\<close> and \<open>prefix pat s\<close> is
  \<open>s.startsWith(pat)\<close>.
\<close>

definition toUpperCase_char :: "char \<Rightarrow> char" where
  "toUpperCase_char c =
     (case map_of (zip ''abcdefghijklmnopqrstuvwxyz'' ''ABCDEFGHIJKLMNOPQRSTUVWXYZ'') c of
        Some d \<Rightarrow> d | None \<Rightarrow> c)"

definition toLowerCase_char :: "char \<Rightarrow> char" where
  "toLowerCase_char c =
     (case map_of (zip ''ABCDEFGHIJKLMNOPQRSTUVWXYZ'' ''abcdefghijklmnopqrstuvwxyz'') c of
        Some d \<Rightarrow> d | None \<Rightarrow> c)"

definition toUpperCase :: "string \<Rightarrow> string" where "toUpperCase s = map toUpperCase_char s"
definition toLowerCase :: "string \<Rightarrow> string" where "toLowerCase s = map toLowerCase_char s"

fun str_includes :: "string \<Rightarrow> string \<Rightarrow> bool" where
  "str_includes [] pat = (pat = [])"
| "str_includes (c # cs) pat = (prefix pat (c # cs) \<or> str_includes cs pat)"

section \<open>Network error mapping (droidRelayService.js)\<close>

text \<open>
  A transport error carries an optional \<open>code\<close> and an optional \<open>message\<close>
  (\<open>None\<close> for a missing or empty one). The argument of \<open>_mapNetworkErrorStatus\<close>
  is \<open>None\<close> when the thrown value is not an object.
\<close>

record net_error =
  err_code :: "string option"
  err_message :: "string option"

text \<open>The local \<open>code\<close> and \<open>message\<close> of \<open>_mapNetworkErrorStatus\<close>.\<close>

definition error_code :: "net_error option \<Rightarrow> string" where
  "error_code error =
     toUpperCase (case error of
                    None \<Rightarrow> []
                  | Some e \<Rightarrow> (case err_code e of None \<Rightarrow> [] | Some c \<Rightarrow> c))"

definition error_message :: "net_error \<Rightarrow> string" where
  "error_message e = toLowerCase (case err_message e of None \<Rightarrow> [] | Some m \<Rightarrow> m)"

text \<open>\<open>_mapNetworkErrorStatus(error)\<close>, test by test in the order of the source.\<close>

definition mapNetworkErrorStatus :: "net_error option \<Rightarrow> nat" where
  "mapNetworkErrorStatus error =
     (let code = error_code error in
      if code = ''ECONNABORTED'' \<or> code = ''ETIMEDOUT'' then 408
      else if code = ''ECONNRESET'' \<or> code = ''EPIPE'' then 503
      else if code = ''ENOTFOUND'' \<or> code = ''EAI_AGAIN'' then 502
      else if code = ''ECONNREFUSED'' then 503
      else if code = ''CERT_HAS_EXPIRED'' \<or> code = ''UNABLE_TO_VERIFY_LEAF_SIGNATURE'' then 502
      else if code = ''ENETUNREACH'' \<or> code = ''EHOSTUNREACH'' then 503
      else
        (case error of
           None \<Rightarrow> 502
         | Some e \<Rightarrow>
             let message = error_message e in
             if str_includes message ''timeout'' then
               (if str_includes message ''gateway'' \<or> str_includes message ''upstream''
                then 504 else 408)
             else if str_includes message ''certificate'' \<or> str_includes message ''ssl'' \<or>
                     str_includes message ''tls'' then 502
             else if str_includes message ''refused'' \<or> str_includes message ''unavailable''
             then 503
             else if str_includes message ''dependency'' \<or>
                     str_includes message ''upstream failed'' then 424
             else 502))"

text \<open>The lower-cased message the second half of the function inspects; empty when
  the error is not an object.\<close>

definition message_of :: "net_error option \<Rightarrow> string" where
  "message_of error = (case error of None \<Rightarrow> [] | Some e \<Rightarrow> error_message e)"

section \<open>Request body processing (droidRelayService.js)\<close>

text \<open>
  A request body is a JSON object: an association list, read through \<open>map_of\<close> (the
  first binding of a key is its value). \<open>AList.update\<close> is the assignment
  \<open>obj.k = v\<close> (in place when the key exists, appended otherwise) and
  \<open>AList.delete\<close> is \<open>delete obj.k\<close>; \<open>has_own\<close> is \<open>hasOwnProperty\<close>, so a
  key bound to \<open>undefined\<close> is present.
\<close>

type_synonym jsobj = "(string \<times> jsval) list"

definition has_own :: "jsobj \<Rightarrow> string \<Rightarrow> bool" where
  "has_own obj k = (map_of obj k \<noteq> None)"

definition SYSTEM_PROMPT :: string where
  "SYSTEM_PROMPT = ''You are Droid, an AI software engineering agent built by Factory.''"

definition promptBlock :: jsval where
  "promptBlock = JObj [(''type'', JStr ''text''), (''text'', JStr SYSTEM_PROMPT)]"

record process_options =
  disableStreaming :: bool
  streamRequested :: bool

text \<open>\<open>_isStreamRequested(requestBody)\<close>.\<close>

definition isStreamRequested :: "jsobj \<Rightarrow> bool" where
  "isStreamRequested requestBody =
     (let v = getp (JObj requestBody) ''stream'' in
      if v = JBool True then True
      else case v of JStr s \<Rightarrow> toLowerCase s = ''true'' | _ \<Rightarrow> False)"

text \<open>
  \<open>_processRequestBody(requestBody, endpointType, options)\<close> works on the copy
  \<open>processedBody = {...requestBody}\<close> in five steps, one definition each, in the order
  of the source: the \<open>metadata\<close> field is deleted; the \<open>stream\<close> field is set
  from the options (\<open>hasStreamField\<close> is read from the original body); the Anthropic
  system prompt is injected; the OpenAI instructions are prefixed (\<open>startsWith\<close> on a
  truthy value that is not a string throws); \<open>top_p\<close> is dropped when
  \<open>temperature\<close> is given too.
\<close>

definition strip_metadata :: "jsobj \<Rightarrow> jsobj" where
  "strip_metadata processedBody =
     (if has_own processedBody ''metadata'' then AList.delete ''metadata'' processedBody
      else processedBody)"

definition set_stream :: "process_options \<Rightarrow> bool \<Rightarrow> jsobj \<Rightarrow> jsobj" where
  "set_stream options hasStreamField processedBody =
     (if disableStreaming options \<or> \<not> streamRequested options then
        (if hasStreamField then AList.update ''stream'' (JBool False) processedBody
         else if has_own processedBody ''stream'' then AList.delete ''stream'' processedBody
         else processedBody)
      else AList.update ''stream'' (JBool True) processedBody)"

definition is_prompt_item :: "jsval \<Rightarrow> bool" where
  "is_prompt_item item =
     (truthy item \<and> getp item ''type'' = JStr ''text'' \<and> getp item ''text'' = JStr SYSTEM_PROMPT)"

definition inject_anthropic :: "string \<Rightarrow> jsobj \<Rightarrow> jsobj" where
  "inject_anthropic endpointType processedBody =
     (if endpointType = ''anthropic'' then
        (if SYSTEM_PROMPT \<noteq> [] then
           (case getp (JObj processedBody) ''system'' of
              JArr items \<Rightarrow>
                if list_ex is_prompt_item items then processedBody
                else AList.update ''system'' (JArr (promptBlock # items)) processedBody
            | _ \<Rightarrow> AList.update ''system'' (JArr [promptBlock]) processedBody)
         else processedBody)
      else processedBody)"

definition inject_openai :: "string \<Rightarrow> jsobj \<Rightarrow> js_error + jsobj" where
  "inject_openai endpointType processedBody =
     (if endpointType = ''openai'' then
        (if SYSTEM_PROMPT \<noteq> [] then
           (let instructions = getp (JObj processedBody) ''instructions'' in
            if truthy instructions then
              (case instructions of
                 JStr s \<Rightarrow>
                   if \<not> prefix SYSTEM_PROMPT s
                   then Inr (AList.update ''instructions'' (JStr (SYSTEM_PROMPT @ s)) processedBody)
                   else Inr processedBody
               | _ \<Rightarrow> Inl TypeError)
            else Inr (AList.update ''instructions'' (JStr SYSTEM_PROMPT) processedBody))
         else Inr processedBody)
      else Inr processedBody)"

definition drop_top_p :: "jsobj \<Rightarrow> jsobj" where
  "drop_top_p processedBody =
     (let hasValidTemperature = \<not> nullish (getp (JObj processedBody) ''temperature'');
          hasValidTopP = \<not> nullish (getp (JObj processedBody) ''top_p'')
      in if hasValidTemperature \<and> hasValidTopP then AList.delete ''top_p'' processedBody
         else processedBody)"

definition processRequestBody ::
  "jsobj \<Rightarrow> string \<Rightarrow> process_options \<Rightarrow> js_error + jsobj" where
  "processRequestBody requestBody endpointType options =
     (let hasStreamField = has_own requestBody ''stream'';
          b1 = strip_metadata requestBody;
          b2 = set_stream options hasStreamField b1;
          b3 = inject_anthropic endpointType b2
      in case inject_openai endpointType b3 of
           Inl e \<Rightarrow> Inl e
         | Inr b4 \<Rightarrow> Inr (drop_top_p b4))"

text \<open>The call in \<open>relayRequest\<close>: \<open>streamRequested\<close> is computed from the body
  that is processed.\<close>

definition relay_process :: "bool \<Rightarrow> string \<Rightarrow> jsobj \<Rightarrow> js_error + jsobj" where
  "relay_process disable endpointType body =
     processRequestBody body endpointType
       \<lparr>disableStreaming = disable,
        streamRequested = (\<not> disable \<and> isStreamRequested body)\<rparr>"

section \<open>Account selection (the IntelligentAccountSelector class)\<close>

text \<open>
  An account's \<open>priority\<close> is whatever value the account data holds: a number, a
  string, or nothing. \<open>parseInt(v)\<close> converts its argument to a string and reads a
  number off the front of that string.

  \<open>ToString\<close>. An integer of magnitude below 2^53 prints as its decimal digits, with a
  minus sign when negative. The printing of every other number (a fraction as
  \<open>50.5\<close>, a large number in exponent form as \<open>1e+21\<close>, a small one as \<open>5e-7\<close>) and
  of arrays and objects belongs to the language runtime: it is the parameter \<open>tostr\<close>.
\<close>

definition digit_char :: "nat \<Rightarrow> char" where
  "digit_char d = ''0123456789'' ! d"

fun decimal :: "nat \<Rightarrow> string" where
  "decimal n = (if n < 10 then [digit_char n] else decimal (n div 10) @ [digit_char (n mod 10)])"

declare decimal.simps [simp del]

definition show_int :: "int \<Rightarrow> string" where
  "show_int i = (if i < 0 then CHR ''-'' # decimal (nat (- i)) else decimal (nat i))"

definition Number_toString :: "(jsval \<Rightarrow> string) \<Rightarrow> real \<Rightarrow> string" where
  "Number_toString tostr x =
     (if of_int \<lfloor>x\<rfloor> = x \<and> \<bar>x\<bar> < 2 ^ 53 then show_int \<lfloor>x\<rfloor> else tostr (JNum x))"

fun ToString :: "(jsval \<Rightarrow> string) \<Rightarrow> jsval \<Rightarrow> string" where
  "ToString tostr JUndefined = ''undefined''"
| "ToString tostr JNull = ''null''"
| "ToString tostr (JBool b) = (if b then ''true'' else ''false'')"
| "ToString tostr (JNum x) = Number_toString tostr x"
| "ToString tostr JNaN = ''NaN''"
| "ToString tostr (JInf negative) = (if negative then ''-Infinity'' else ''Infinity'')"
| "ToString tostr (JStr s) = s"
| "ToString tostr (JArr xs) = tostr (JArr xs)"
| "ToString tostr (JObj kvs) = tostr (JObj kvs)"

text \<open>
  \<open>parseInt\<close> on a string: leading white space is skipped (the white space of ASCII;
  the strings here are ASCII), a sign is read, then the longest prefix of digits
  (hexadecimal after \<open>0x\<close>, decimal otherwise); \<open>None\<close> is \<open>NaN\<close>, the result when
  there is no digit. The result is the exact integer the digits denote.
\<close>

definition is_space :: "char \<Rightarrow> bool" where
  "is_space c = (c \<in> set [CHR '' '', CHR 0x09, CHR 0x0A, CHR 0x0B, CHR 0x0C, CHR 0x0D])"

definition dec_digit :: "char \<Rightarrow> nat option" where
  "dec_digit c = map_of (zip ''0123456789'' [0..<10]) c"

definition hex_digit :: "char \<Rightarrow> nat option" where
  "hex_digit c =
     map_of (zip ''0123456789abcdefABCDEF'' ([0..<16] @ [10..<16])) c"

fun digits_value :: "nat \<Rightarrow> (char \<Rightarrow> nat option) \<Rightarrow> nat \<Rightarrow> string \<Rightarrow> nat" where
  "digits_value radix dig acc [] = acc"
| "digits_value radix dig acc (c # cs) =
     (case dig c of
        None \<Rightarrow> acc
      | Some d \<Rightarrow> digits_value radix dig (acc * radix + d) cs)"

definition parse_magnitude :: "string \<Rightarrow> nat option" where
  "parse_magnitude u =
     (if prefix ''0x'' u \<or> prefix ''0X'' u then
        (case drop 2 u of
           [] \<Rightarrow> None
         | c # cs \<Rightarrow> if hex_digit c = None then None
                     else Some (digits_value 16 hex_digit 0 (c # cs)))
      else
        (case u of
           [] \<Rightarrow> None
         | c # cs \<Rightarrow> if dec_digit c = None then None
                     else Some (digits_value 10 dec_digit 0 (c # cs))))"

definition parseInt_str :: "string \<Rightarrow> int option" where
  "parseInt_str s =
     (let t = dropWhile is_space s in
      case t of
        [] \<Rightarrow> None
      | c # r \<Rightarrow>
          if c = CHR ''-'' then map_option (\<lambda>n. - int n) (parse_magnitude r)
          else if c = CHR ''+'' then map_option int (parse_magnitude r)
          else map_option int (parse_magnitude t))"

definition parseInt :: "(jsval \<Rightarrow> string) \<Rightarrow> jsval \<Rightarrow> int option" where
  "parseInt tostr v = parseInt_str (ToString tostr v)"

text \<open>
  The fields of an enriched account that selection reads. \<open>priority\<close> is the raw value
  (\<open>JUndefined\<close> when the field is missing). \<open>lastUsedAt\<close> is the time stamp
  \<open>new Date(a.lastUsedAt).getTime()\<close> of a date that parses, \<open>None\<close> when the field is
  missing or empty; \<open>usagePercentage\<close> is \<open>None\<close> when it is missing.
\<close>

record account =
  acc_id :: string
  priority :: jsval
  lastUsedAt :: "int option"
  usagePercentage :: "real option"

text \<open>\<open>parseInt(a.priority) || 50\<close>, and the time stamp the second comparator uses
  (\<open>a.lastUsedAt ? ... : 0\<close>).\<close>

definition eff_priority :: "(jsval \<Rightarrow> string) \<Rightarrow> account \<Rightarrow> int" where
  "eff_priority tostr a =
     (case parseInt tostr (priority a) of
        None \<Rightarrow> 50
      | Some n \<Rightarrow> if n = 0 then 50 else n)"

definition lastUsed :: "account \<Rightarrow> int" where
  "lastUsed a = (case lastUsedAt a of None \<Rightarrow> 0 | Some t \<Rightarrow> t)"

text \<open>
  \<open>_selectFromSameGroup(accounts)\<close>. \<open>Array.prototype.sort\<close> is stable and both
  comparators are differences of keys, so each sort is the stable sort by that key
  (\<open>sort_key\<close>). \<open>highestPriority\<close> is \<open>sortedByPriority[0].priority || 50\<close>, the raw
  field of the first account, compared with \<open>===\<close> to the parsed priority of each
  account: equal only when the raw value is that very number. \<open>Inr None\<close> is the result
  \<open>undefined\<close> (element 0 of an empty array); on an empty argument
  \<open>sortedByPriority[0].priority\<close> throws.
\<close>

definition selectFromSameGroup ::
  "(jsval \<Rightarrow> string) \<Rightarrow> account list \<Rightarrow> js_error + account option" where
  "selectFromSameGroup tostr accounts =
     (let sortedByPriority = sort_key (\<lambda>a. - eff_priority tostr a) accounts in
      case sortedByPriority of
        [] \<Rightarrow> Inl TypeError
      | first # rest \<Rightarrow>
          let highestPriority = or_js (priority first) (JNum 50);
              highestPriorityAccounts =
                filter (\<lambda>a. JNum (of_int (eff_priority tostr a)) = highestPriority)
                  sortedByPriority
          in if length highestPriorityAccounts = 1 then Inr (Some (hd highestPriorityAccounts))
             else (case sort_key lastUsed highestPriorityAccounts of
                     [] \<Rightarrow> Inr None
                   | a # as \<Rightarrow> Inr (Some a)))"

text \<open>\<open>_groupAccountsByUsage(accounts)\<close> with the thresholds of the constructor
  (0.3, 0.5, 0.8); \<open>usage_of\<close> is \<open>account.usagePercentage || 0\<close>.\<close>

record usage_groups =
  low :: "account list"
  medium :: "account list"
  high :: "account list"
  critical :: "account list"

definition usage_of :: "account \<Rightarrow> real" where
  "usage_of a = (case usagePercentage a of None \<Rightarrow> 0 | Some u \<Rightarrow> u)"

definition group_push :: "usage_groups \<Rightarrow> account \<Rightarrow> usage_groups" where
  "group_push groups a =
     (let usage = usage_of a in
      if usage < 0.3 then groups\<lparr>low := low groups @ [a]\<rparr>
      else if usage < 0.5 then groups\<lparr>medium := medium groups @ [a]\<rparr>
      else if usage < 0.8 then groups\<lparr>high := high groups @ [a]\<rparr>
      else groups\<lparr>critical := critical groups @ [a]\<rparr>)"

definition groupAccountsByUsage :: "account list \<Rightarrow> usage_groups" where
  "groupAccountsByUsage accounts =
     foldl group_push \<lparr>low = [], medium = [], high = [], critical = []\<rparr> accounts"

text \<open>\<open>_selectFromGroups(groups)\<close>: the loop over the four groups in order; a group whose
  selection is \<open>undefined\<close> is passed over, and \<open>Inr None\<close> at the end is
  \<open>null\<close>.\<close>

fun select_loop :: "(jsval \<Rightarrow> string) \<Rightarrow> account list list \<Rightarrow> js_error + account option" where
  "select_loop tostr [] = Inr None"
| "select_loop tostr (g # gs) =
     (if length g = 0 then select_loop tostr gs
      else case (if length g = 1 then Inr (Some (hd g)) else selectFromSameGroup tostr g) of
             Inl e \<Rightarrow> Inl e
           | Inr (Some selectedAccount) \<Rightarrow> Inr (Some selectedAccount)
           | Inr None \<Rightarrow> select_loop tostr gs)"

definition selectFromGroups :: "(jsval \<Rightarrow> string) \<Rightarrow> usage_groups \<Rightarrow> js_error + account option" where
  "selectFromGroups tostr groups =
     select_loop tostr [low groups, medium groups, high groups, critical groups]"

text \<open>Accounts whose priority is an integer of magnitude below 2^53 or is missing
  (\<open>undefined\<close> or \<open>null\<close>), the first non-empty group of a list, and the four groups
  in the order of selection.\<close>

definition integer_priority :: "account \<Rightarrow> bool" where
  "integer_priority a =
     (case priority a of
        JUndefined \<Rightarrow> True
      | JNull \<Rightarrow> True
      | JNum x \<Rightarrow> of_int \<lfloor>x\<rfloor> = x \<and> \<bar>x\<bar> < 2 ^ 53
      | _ \<Rightarrow> False)"

definition first_nonempty :: "account list list \<Rightarrow> account list" where
  "first_nonempty gs = (case filter (\<lambda>g. g \<noteq> []) gs of [] \<Rightarrow> [] | g # rest \<Rightarrow> g)"

definition bands :: "usage_groups \<Rightarrow> account list list" where
  "bands g = [low g, medium g, high g, critical g]"

section \<open>Distributed lock (distributedLockService.js)\<close>

text \<open>
  Modelled from the spec: the Coordination Store (the Redis client behind
  \<open>models/redis\<close>, which is not among the sources), "a shared key-value store offering
  atomic conditional-set, TTL expiry, and a scripted compare-and-delete primitive". A key
  holds a value and the instant (in ms) at which it expires; a key whose instant has passed
  is absent for every command. Each command, and each script, runs atomically. A command
  sent while the store is unreachable throws, and so does a \<open>SET ... PX 0\<close> (an invalid
  expire time).
\<close>

record redis_store =
  kv :: "string \<Rightarrow> (string \<times> nat) option"
  reachable :: bool

definition redis_get :: "redis_store \<Rightarrow> nat \<Rightarrow> string \<Rightarrow> string option" where
  "redis_get r now key =
     (case kv r key of
        None \<Rightarrow> None
      | Some (v, expiry) \<Rightarrow> if now < expiry then Some v else None)"

text \<open>\<open>SET key value PX ttl NX\<close>: \<open>True\<close> is the reply \<open>OK\<close>, \<open>False\<close> the
  reply \<open>null\<close>.\<close>

definition redis_set_px_nx ::
  "redis_store \<Rightarrow> nat \<Rightarrow> string \<Rightarrow> string \<Rightarrow> nat \<Rightarrow> js_error + (bool \<times> redis_store)" where
  "redis_set_px_nx r now key v ttl =
     (if \<not> reachable r \<or> ttl = 0 then Inl StoreError
      else if redis_get r now key = None
      then Inr (True, r\<lparr>kv := (kv r)(key \<mapsto> (v, now + ttl))\<rparr>)
      else Inr (False, r))"

text \<open>The two Lua scripts of \<open>releaseLock\<close> and \<open>extendLock\<close>: compare the stored
  value with the token, then \<open>del\<close>, respectively \<open>pexpire\<close>.\<close>

definition eval_release ::
  "redis_store \<Rightarrow> nat \<Rightarrow> string \<Rightarrow> string \<Rightarrow> js_error + (nat \<times> redis_store)" where
  "eval_release r now key v =
     (if \<not> reachable r then Inl StoreError
      else if redis_get r now key = Some v then Inr (1, r\<lparr>kv := (kv r)(key := None)\<rparr>)
      else Inr (0, r))"

definition eval_extend ::
  "redis_store \<Rightarrow> nat \<Rightarrow> string \<Rightarrow> string \<Rightarrow> nat \<Rightarrow> js_error + (nat \<times> redis_store)" where
  "eval_extend r now key v newTTL =
     (if \<not> reachable r then Inl StoreError
      else if redis_get r now key = Some v
      then Inr (1, r\<lparr>kv := (kv r)(key \<mapsto> (v, now + newTTL))\<rparr>)
      else Inr (0, r))"

text \<open>The lock object \<open>acquireLock\<close> returns, the service's map of active locks and
  the defaults of the constructor.\<close>

record lock =
  resource :: string
  lock_key :: string
  lock_value :: string
  lock_ttl :: nat
  acquiredAt :: nat
  expiresAt :: nat

record lock_service =
  activeLocks :: "string \<Rightarrow> lock option"

definition defaultTTL :: nat where "defaultTTL = 30000"
definition defaultRetryDelay :: nat where "defaultRetryDelay = 50"
definition defaultRetries :: nat where "defaultRetries = 10"
definition lockPrefix :: string where "lockPrefix = ''lock:''"

text \<open>
  The options of \<open>acquireLock(resource, options)\<close> and their destructuring: a default
  replaces a missing option. \<open>value\<close> defaults to
  \<open>crypto.randomBytes(16).toString('hex')\<close>, drawn once, before the loop; the drawn
  string is the argument \<open>randomToken\<close>.
\<close>

record lock_options =
  opt_ttl :: "nat option"
  opt_retries :: "nat option"
  opt_retryDelay :: "nat option"
  opt_value :: "string option"

record acquire_params =
  p_resource :: string
  p_ttl :: nat
  p_retries :: nat
  p_retryDelay :: nat
  p_value :: string

definition acquire_params_of :: "string \<Rightarrow> lock_options \<Rightarrow> string \<Rightarrow> acquire_params" where
  "acquire_params_of res options randomToken =
     \<lparr>p_resource = res,
      p_ttl = (case opt_ttl options of None \<Rightarrow> defaultTTL | Some t \<Rightarrow> t),
      p_retries = (case opt_retries options of None \<Rightarrow> defaultRetries | Some n \<Rightarrow> n),
      p_retryDelay = (case opt_retryDelay options of None \<Rightarrow> defaultRetryDelay | Some d \<Rightarrow> d),
      p_value = (case opt_value options of None \<Rightarrow> randomToken | Some v \<Rightarrow> v)\<rparr>"

definition key_of :: "acquire_params \<Rightarrow> string" where
  "key_of p = lockPrefix @ p_resource p"

text \<open>
  The client call \<open>redis.client.set(key, value, 'PX', ttl, 'NX')\<close>. Besides sending the
  command to the store it is given the list of the commands the caller has sent so far and
  appends this one: the instant, the three arguments as they were passed, and the reply
  (\<open>OK\<close>, \<open>null\<close>, or an error thrown). The list is an observation of the call, not a
  variable of the code.
\<close>

datatype set_reply = ReplyOK | ReplyNull | ReplyError

record set_call =
  c_time :: nat
  c_key :: string
  c_value :: string
  c_ttl :: nat
  c_reply :: set_reply

definition client_set ::
  "redis_store \<Rightarrow> set_call list \<Rightarrow> nat \<Rightarrow> string \<Rightarrow> string \<Rightarrow> nat \<Rightarrow>
     (js_error + bool) \<times> redis_store \<times> set_call list" where
  "client_set r sent now key v ttl =
     (case redis_set_px_nx r now key v ttl of
        Inl e \<Rightarrow>
          (Inl e, r,
           sent @ [\<lparr>c_time = now, c_key = key, c_value = v, c_ttl = ttl, c_reply = ReplyError\<rparr>])
      | Inr (ok, r') \<Rightarrow>
          (Inr ok, r',
           sent @ [\<lparr>c_time = now, c_key = key, c_value = v, c_ttl = ttl,
                    c_reply = (if ok then ReplyOK else ReplyNull)\<rparr>]))"

text \<open>
  A call of \<open>acquireLock\<close> in progress: the loop counter \<open>i\<close>, the instant at which
  its current sleep ends, how it has ended, if it has, and the commands it has sent.
  \<open>acquire_attempt\<close> is one iteration of the \<open>for\<close> loop at the instant \<open>now\<close>: the
  conditional set, then either the lock (also stored in \<open>activeLocks\<close>), or the sleep of
  \<open>retryDelay * (i + 1)\<close> before the next iteration, or \<open>null\<close> once the last attempt
  is refused; a store error is rethrown on the last iteration and leads straight to the
  next iteration before that.
\<close>

datatype acquire_outcome = Pending | Acquired lock | ReturnedNull | Thrown

record acquire_state =
  a_i :: nat
  a_wake :: nat
  a_outcome :: acquire_outcome
  a_sent :: "set_call list"

definition acquire_attempt ::
  "acquire_params \<Rightarrow> nat \<Rightarrow> acquire_state \<times> lock_service \<times> redis_store \<Rightarrow>
     acquire_state \<times> lock_service \<times> redis_store" where
  "acquire_attempt p now s =
     (case s of (st, svc, r) \<Rightarrow>
        if \<not> a_i st \<le> p_retries p then (st\<lparr>a_outcome := ReturnedNull\<rparr>, svc, r)
        else
          (case client_set r (a_sent st) now (key_of p) (p_value p) (p_ttl p) of
             (Inr True, r', sent') \<Rightarrow>
               let lk = \<lparr>resource = p_resource p, lock_key = key_of p, lock_value = p_value p,
                         lock_ttl = p_ttl p, acquiredAt = now, expiresAt = now + p_ttl p\<rparr>
               in (st\<lparr>a_outcome := Acquired lk, a_sent := sent'\<rparr>,
                   svc\<lparr>activeLocks := (activeLocks svc)(p_resource p \<mapsto> lk)\<rparr>, r')
           | (Inr False, r', sent') \<Rightarrow>
               if a_i st < p_retries p
               then (st\<lparr>a_i := a_i st + 1, a_wake := now + p_retryDelay p * (a_i st + 1),
                        a_sent := sent'\<rparr>, svc, r')
               else (st\<lparr>a_outcome := ReturnedNull, a_sent := sent'\<rparr>, svc, r')
           | (Inl e, r', sent') \<Rightarrow>
               if a_i st = p_retries p then (st\<lparr>a_outcome := Thrown, a_sent := sent'\<rparr>, svc, r')
               else (st\<lparr>a_i := a_i st + 1, a_wake := now, a_sent := sent'\<rparr>, svc, r')))"

text \<open>
  The whole loop for a caller that is alone with the store: each iteration runs when the
  previous sleep ends. The loop terminates: \<open>i\<close> grows and is bounded by
  \<open>retries\<close>.
\<close>

function acquire_run ::
  "acquire_params \<Rightarrow> acquire_state \<times> lock_service \<times> redis_store \<Rightarrow>
     acquire_state \<times> lock_service \<times> redis_store" where
  "acquire_run p s =
     (if a_outcome (fst s) = Pending then acquire_run p (acquire_attempt p (a_wake (fst s)) s)
      else s)"
  by pat_completeness auto
termination
proof (relation "measure (\<lambda>(p, s). if a_outcome (fst s) = Pending
                                    then Suc (Suc (p_retries p) - a_i (fst s)) else 0)")
  show "wf (measure (\<lambda>(p, s). if a_outcome (fst s) = Pending
                                    then Suc (Suc (p_retries p) - a_i (fst s)) else 0))" by simp
next
  fix p :: acquire_params and s :: "acquire_state \<times> lock_service \<times> redis_store"
  assume "a_outcome (fst s) = Pending"
  then show "((p, acquire_attempt p (a_wake (fst s)) s), (p, s))
     \<in> measure (\<lambda>(p, s). if a_outcome (fst s) = Pending
                                    then Suc (Suc (p_retries p) - a_i (fst s)) else 0)"
    by (cases s)
      (auto simp: acquire_attempt_def client_set_def Let_def split: sum.splits bool.splits)
qed

definition acquireLock ::
  "lock_service \<Rightarrow> redis_store \<Rightarrow> nat \<Rightarrow> string \<Rightarrow> lock_options \<Rightarrow> string \<Rightarrow>
     acquire_state \<times> lock_service \<times> redis_store" where
  "acquireLock svc r now res options randomToken =
     acquire_run (acquire_params_of res options randomToken)
       (\<lparr>a_i = 0, a_wake = now, a_outcome = Pending, a_sent = []\<rparr>, svc, r)"

text \<open>\<open>releaseLock(lock)\<close> and \<open>extendLock(lock, ttl = null)\<close>; an empty key or
  value is a falsy one, and a \<open>ttl\<close> of 0 is falsy too.\<close>

definition releaseLock ::
  "lock_service \<Rightarrow> redis_store \<Rightarrow> nat \<Rightarrow> lock option \<Rightarrow> bool \<times> lock_service \<times> redis_store" where
  "releaseLock svc r now lk0 =
     (case lk0 of
        None \<Rightarrow> (False, svc, r)
      | Some lk \<Rightarrow>
          if lock_key lk = [] \<or> lock_value lk = [] then (False, svc, r)
          else
            (case eval_release r now (lock_key lk) (lock_value lk) of
               Inl e \<Rightarrow> (False, svc, r)
             | Inr (result, r') \<Rightarrow>
                 if result = 1
                 then (True, svc\<lparr>activeLocks := (activeLocks svc)(resource lk := None)\<rparr>, r')
                 else (False, svc, r')))"

definition extendLock ::
  "redis_store \<Rightarrow> nat \<Rightarrow> lock option \<Rightarrow> nat option \<Rightarrow> bool \<times> lock option \<times> redis_store" where
  "extendLock r now lk0 ttl =
     (case lk0 of
        None \<Rightarrow> (False, lk0, r)
      | Some lk \<Rightarrow>
          if lock_key lk = [] \<or> lock_value lk = [] then (False, lk0, r)
          else
            let newTTL = (case ttl of
                            Some t \<Rightarrow> if t \<noteq> 0 then t
                                      else if lock_ttl lk \<noteq> 0 then lock_ttl lk else defaultTTL
                          | None \<Rightarrow> if lock_ttl lk \<noteq> 0 then lock_ttl lk else defaultTTL)
            in (case eval_extend r now (lock_key lk) (lock_value lk) newTTL of
                  Inl e \<Rightarrow> (False, lk0, r)
                | Inr (result, r') \<Rightarrow>
                    if result = 1 then (True, Some (lk\<lparr>expiresAt := now + newTTL\<rparr>), r')
                    else (False, lk0, r')))"

text \<open>
  Two concurrent calls of \<open>acquireLock\<close>. The store serialises the commands it
  receives, so a concurrent execution is an interleaving of the calls' iterations: an
  event \<open>Attempt who now\<close> lets the first (\<open>False\<close>) or the second (\<open>True\<close>) call
  run one iteration at the instant \<open>now\<close>, provided the call is still in its loop and
  its sleep is over; \<open>Outage down\<close> makes the store unreachable or reachable again.
\<close>

datatype event = Attempt bool nat | Outage bool












section \<open>Health classifier (droidRelayService.js)\<close>

text \<open>\<open>String.prototype.trim\<close>, a value that is given and not empty (a truthy string),
  and \<open>_normalizeEndpointType\<close>.\<close>

definition js_trim :: "string \<Rightarrow> string" where
  "js_trim s = rev (dropWhile is_space (rev (dropWhile is_space s)))"

definition present :: "string option \<Rightarrow> bool" where
  "present x = (case x of None \<Rightarrow> False | Some s \<Rightarrow> s \<noteq> [])"

definition normalizeEndpointType :: "string option \<Rightarrow> string" where
  "normalizeEndpointType endpointType =
     (if \<not> present endpointType then ''anthropic''
      else let normalized = toLowerCase (the endpointType) in
           if normalized = ''openai'' \<or> normalized = ''common'' then ''openai''
           else if normalized = ''anthropic'' then ''anthropic''
           else ''anthropic'')"

text \<open>
  Modelled from the spec: the account repository (\<open>droidAccountService\<close>) and the
  sticky affinity store (the session mappings of \<open>models/redis\<close>) are collaborators
  that are not among the sources. An account has the \<open>schedulable\<close> flag and the
  \<open>status\<close> the scheduler filters by, the last error message (the status code and the
  reason given to \<open>_stopDroidAccountScheduling\<close>) and its pool of API key entries, each
  with an id and a status ("ApiKeyEntry: status {active, error}");
  \<open>markApiKeyAsError\<close> sets the status of the entry with the given id to
  \<open>error\<close> ("mark the specific key error"), \<open>getDecryptedApiKeyEntries\<close> lists the
  pool, \<open>updateAccount\<close> writes the given fields of an existing account
  (\<open>UpdateAccountStatus(accountId, status, reason)\<close>), and
  \<open>deleteSessionAccountMapping\<close> removes one mapping. A collaborator call can fail; the
  flags of \<open>faults\<close> say which calls throw, each before it changes anything.
\<close>

record api_key_entry =
  entry_id :: string
  entry_status :: string

datatype stop_reason = AllKeysInError | KeyCheckFailed | NoKeyAvailable | CredentialRejected

record droid_account =
  da_schedulable :: string
  da_status :: string
  da_errorMessage :: "(nat \<times> stop_reason) option"
  da_apiKeys :: "api_key_entry list"

record relay_world =
  w_accounts :: "string \<Rightarrow> droid_account option"
  w_sessions :: "string \<Rightarrow> string option"
  w_ratelimit :: "string \<Rightarrow> nat option"

record faults =
  f_mark :: bool
  f_entries :: bool
  f_update :: bool
  f_delete :: bool
  f_setex :: bool

definition markApiKeyAsError :: "relay_world \<Rightarrow> string \<Rightarrow> string \<Rightarrow> bool \<times> relay_world" where
  "markApiKeyAsError w accountId keyId =
     (case w_accounts w accountId of
        None \<Rightarrow> (False, w)
      | Some a \<Rightarrow>
          if keyId \<in> entry_id ` set (da_apiKeys a)
          then (True, w\<lparr>w_accounts := (w_accounts w)(accountId \<mapsto>
                  a\<lparr>da_apiKeys := map (\<lambda>e. if entry_id e = keyId
                                              then e\<lparr>entry_status := ''error''\<rparr> else e)
                                       (da_apiKeys a)\<rparr>)\<rparr>)
          else (False, w))"

definition getDecryptedApiKeyEntries :: "relay_world \<Rightarrow> string \<Rightarrow> api_key_entry list" where
  "getDecryptedApiKeyEntries w accountId =
     (case w_accounts w accountId of None \<Rightarrow> [] | Some a \<Rightarrow> da_apiKeys a)"

definition updateAccount ::
  "relay_world \<Rightarrow> string \<Rightarrow> string \<Rightarrow> string \<Rightarrow> nat \<times> stop_reason \<Rightarrow> relay_world" where
  "updateAccount w accountId sched status msg =
     (case w_accounts w accountId of
        None \<Rightarrow> w
      | Some a \<Rightarrow> w\<lparr>w_accounts := (w_accounts w)(accountId \<mapsto>
                     a\<lparr>da_schedulable := sched, da_status := status,
                       da_errorMessage := Some msg\<rparr>)\<rparr>)"

definition deleteSessionAccountMapping :: "relay_world \<Rightarrow> string \<Rightarrow> relay_world" where
  "deleteSessionAccountMapping w stickyKey = w\<lparr>w_sessions := (w_sessions w)(stickyKey := None)\<rparr>"

text \<open>\<open>_composeApiKeyStickyKey\<close>, the key \<open>_clearAccountStickyMapping\<close> builds,
  \<open>_stopDroidAccountScheduling\<close>, \<open>_clearAccountStickyMapping\<close> and
  \<open>_clearApiKeyStickyMapping\<close>; each of the last three catches the failure of its
  collaborator call.\<close>

definition API_KEY_STICKY_PREFIX :: string where
  "API_KEY_STICKY_PREFIX = ''droid_api_key''"

definition composeApiKeyStickyKey :: "string \<Rightarrow> string option \<Rightarrow> string option \<Rightarrow> string option" where
  "composeApiKeyStickyKey accountId endpointType sessionHash =
     (if accountId = [] \<or> \<not> present sessionHash then None
      else Some (API_KEY_STICKY_PREFIX @ '':'' @ accountId @ '':'' @
                 normalizeEndpointType endpointType @ '':'' @ the sessionHash))"

definition accountStickyKey :: "string option \<Rightarrow> string \<Rightarrow> string option \<Rightarrow> string" where
  "accountStickyKey endpointType sessionHash clientApiKeyId =
     ''droid:'' @ normalizeEndpointType endpointType @ '':'' @
       (if present clientApiKeyId then the clientApiKeyId else ''default'') @ '':'' @ sessionHash"

definition stopDroidAccountScheduling ::
  "faults \<Rightarrow> relay_world \<Rightarrow> string \<Rightarrow> nat \<Rightarrow> stop_reason \<Rightarrow> relay_world" where
  "stopDroidAccountScheduling fl w accountId statusCode reason =
     (if accountId = [] then w
      else if f_update fl then w
      else updateAccount w accountId ''false'' ''error'' (statusCode, reason))"

definition clearAccountStickyMapping ::
  "faults \<Rightarrow> relay_world \<Rightarrow> string option \<Rightarrow> string option \<Rightarrow> string option \<Rightarrow> relay_world" where
  "clearAccountStickyMapping fl w endpointType sessionHash clientApiKeyId =
     (if \<not> present sessionHash then w
      else if f_delete fl then w
      else deleteSessionAccountMapping w
             (accountStickyKey endpointType (the sessionHash) clientApiKeyId))"

definition clearApiKeyStickyMapping ::
  "faults \<Rightarrow> relay_world \<Rightarrow> string \<Rightarrow> string option \<Rightarrow> string option \<Rightarrow> relay_world" where
  "clearApiKeyStickyMapping fl w accountId endpointType sessionHash =
     (if accountId = [] \<or> \<not> present sessionHash then w
      else case composeApiKeyStickyKey accountId endpointType sessionHash of
             None \<Rightarrow> w
           | Some stickyKey \<Rightarrow> if f_delete fl then w else deleteSessionAccountMapping w stickyKey)"

text \<open>
  The context of \<open>_handleUpstreamClientError(statusCode, context)\<close>:
  \<open>ctx_selectedKeyId\<close> is \<open>selectedAccountApiKey?.id\<close>. The function tests the
  status code in the order 400, 429, 404, 401/403, other.
\<close>

record error_context =
  ctx_account :: "account_ref option"
  ctx_selectedKeyId :: "string option"
  ctx_endpointType :: "string option"
  ctx_sessionHash :: "string option"
  ctx_clientApiKeyId :: "string option"

definition ctx_normalizedEndpoint :: "error_context \<Rightarrow> string" where
  "ctx_normalizedEndpoint ctx =
     normalizeEndpointType
       (if present (ctx_endpointType ctx) then ctx_endpointType ctx
        else case ctx_account ctx of
               None \<Rightarrow> Some ''anthropic''
             | Some a \<Rightarrow> if ref_endpointType a \<noteq> [] then Some (ref_endpointType a)
                         else Some ''anthropic'')"

definition ctx_authMethod :: "error_context \<Rightarrow> string" where
  "ctx_authMethod ctx =
     (case ctx_account ctx of
        None \<Rightarrow> []
      | Some a \<Rightarrow> (case authenticationMethod a of
                     None \<Rightarrow> []
                   | Some m \<Rightarrow> js_trim (toLowerCase m)))"

definition handleUpstreamClientError ::
  "faults \<Rightarrow> nat \<Rightarrow> error_context \<Rightarrow> relay_world \<Rightarrow> relay_world" where
  "handleUpstreamClientError fl statusCode ctx w =
     (if statusCode = 0 \<or> statusCode < 400 \<or> statusCode \<ge> 500 then w
      else
        case extractAccountId (ctx_account ctx) of
          None \<Rightarrow> w
        | Some accountId \<Rightarrow>
            let normalizedEndpoint = Some (ctx_normalizedEndpoint ctx);
                authMethod = ctx_authMethod ctx;
                sessionHash = ctx_sessionHash ctx;
                clientApiKeyId = ctx_clientApiKeyId ctx;
                clearBoth = (\<lambda>w0. clearAccountStickyMapping fl
                               (clearApiKeyStickyMapping fl w0 accountId normalizedEndpoint sessionHash)
                               normalizedEndpoint sessionHash clientApiKeyId)
            in
            if statusCode = 400 then clearBoth w
            else if statusCode = 429 then
              clearBoth (if f_setex fl then w
                         else w\<lparr>w_ratelimit := (w_ratelimit w)(''droid:ratelimit:'' @ accountId \<mapsto> 300)\<rparr>)
            else if statusCode = 404 then clearBoth w
            else if statusCode = 401 \<or> statusCode = 403 then
              (if authMethod = ''api_key'' then
                 (if present (ctx_selectedKeyId ctx) then
                    let w1 = (if f_mark fl then w
                              else snd (markApiKeyAsError w accountId (the (ctx_selectedKeyId ctx))));
                        w2 = clearApiKeyStickyMapping fl w1 accountId normalizedEndpoint sessionHash
                    in if f_entries fl then
                         clearAccountStickyMapping fl
                           (stopDroidAccountScheduling fl w2 accountId statusCode KeyCheckFailed)
                           normalizedEndpoint sessionHash clientApiKeyId
                       else
                         let availableEntries = getDecryptedApiKeyEntries w2 accountId;
                             activeEntries = filter (\<lambda>entry. entry_status entry \<noteq> ''error'')
                                               availableEntries
                         in if length activeEntries = 0 then
                              clearAccountStickyMapping fl
                                (stopDroidAccountScheduling fl w2 accountId statusCode AllKeysInError)
                                normalizedEndpoint sessionHash clientApiKeyId
                            else w2
                  else
                    clearAccountStickyMapping fl
                      (stopDroidAccountScheduling fl w accountId statusCode NoKeyAvailable)
                      normalizedEndpoint sessionHash clientApiKeyId)
               else
                 clearAccountStickyMapping fl
                   (stopDroidAccountScheduling fl w accountId statusCode CredentialRejected)
                   normalizedEndpoint sessionHash clientApiKeyId)
            else clearBoth w)"


text \<open>No collaborator fails; an account that is out of scheduling (\<open>schedulable\<close>
  is \<open>'false'\<close> and \<open>status\<close> is \<open>'error'\<close>); the API key sticky key of a
  session; and the spec's scenario: an account in pool mode with three keys, the first two
  with the given statuses, a session bound to the account and to the third key, and an
  upstream error on the third key.\<close>

definition no_faults :: faults where
  "no_faults = \<lparr>f_mark = False, f_entries = False, f_update = False, f_delete = False,
                 f_setex = False\<rparr>"


definition stopped :: "relay_world \<Rightarrow> string \<Rightarrow> bool" where
  "stopped w accountId =
     (case w_accounts w accountId of
        None \<Rightarrow> False
      | Some a \<Rightarrow> da_schedulable a = ''false'' \<and> da_status a = ''error'')"


definition apiKeyStickyKey :: "string \<Rightarrow> string \<Rightarrow> string \<Rightarrow> string" where
  "apiKeyStickyKey accountId normalizedEndpoint sessionHash =
     API_KEY_STICKY_PREFIX @ '':'' @ accountId @ '':'' @ normalizedEndpoint @ '':'' @ sessionHash"

definition scenario_ctx :: error_context where
  "scenario_ctx =
     \<lparr>ctx_account = Some \<lparr>ref_id = ''acc-1'', ref_accountId = [], ref_account_id = [],
                           authenticationMethod = Some ''api_key'', ref_endpointType = ''anthropic''\<rparr>,
      ctx_selectedKeyId = Some ''k3'', ctx_endpointType = Some ''anthropic'',
      ctx_sessionHash = Some ''sess-1'', ctx_clientApiKeyId = Some ''client-1''\<rparr>"

definition scenario_world :: "string \<Rightarrow> string \<Rightarrow> relay_world" where
  "scenario_world s1 s2 =
     \<lparr>w_accounts = [''acc-1'' \<mapsto>
         \<lparr>da_schedulable = ''true'', da_status = ''active'', da_errorMessage = None,
          da_apiKeys = [\<lparr>entry_id = ''k1'', entry_status = s1\<rparr>,
                        \<lparr>entry_id = ''k2'', entry_status = s2\<rparr>,
                        \<lparr>entry_id = ''k3'', entry_status = ''active''\<rparr>]\<rparr>],
      w_sessions = [''droid:anthropic:client-1:sess-1'' \<mapsto> ''acc-1'',
                    ''droid_api_key:acc-1:anthropic:sess-1'' \<mapsto> ''k3''],
      w_ratelimit = Map.empty\<rparr>"

section \<open>Streaming usage parser (droidRelayService.js)\<close>

text \<open>\<open>String.prototype.split('\n')\<close>: the pieces between line feeds; a string without
  one is its own single piece, the empty string gives one empty piece.\<close>

fun split_nl :: "string \<Rightarrow> string list" where
  "split_nl [] = [[]]"
| "split_nl (c # cs) =
     (if c = CHR 0x0A then [] # split_nl cs
      else case split_nl cs of
             [] \<Rightarrow> [[c]]
           | l # ls \<Rightarrow> (c # l) # ls)"

text \<open>The test \<open>line.startsWith('data: ') && line.length > 6\<close> and \<open>line.slice(6)\<close>.\<close>

definition data_payload :: "string \<Rightarrow> string option" where
  "data_payload line =
     (if prefix ''data: '' line \<and> length line > 6 then Some (drop 6 line) else None)"

text \<open>An assignment \<open>currentUsageData.k = v\<close>. The usage object that the parsers
  mutate is the association list of its properties; a parser is the list of the
  assignments it performs, in order.\<close>

definition assign :: "jsobj \<Rightarrow> string \<times> jsval \<Rightarrow> jsobj" where
  "assign obj binding = AList.update (fst binding) (snd binding) obj"

text \<open>
  The body of the inner \<open>try\<close> of \<open>_parseAnthropicUsageFromSSE\<close> once a line is
  parsed: \<open>message_start\<close> brings the input and cache counts (each \<open>|| 0\<close>) and, when
  present, the two ephemeral counts; \<open>message_delta\<close> brings the output count. On
  \<open>null\<close> the read \<open>data.type\<close> throws, which the \<open>catch\<close> ignores.
\<close>

definition anthropic_updates :: "jsval \<Rightarrow> (string \<times> jsval) list" where
  "anthropic_updates data =
     (if nullish data then []
      else
        (if getp data ''type'' = JStr ''message_start'' \<and> truthy (getp data ''message'') \<and>
            truthy (getp (getp data ''message'') ''usage'')
         then
           (let usage = getp (getp data ''message'') ''usage'' in
            [(''input_tokens'', or_js (getp usage ''input_tokens'') (JNum 0)),
             (''cache_creation_input_tokens'',
                or_js (getp usage ''cache_creation_input_tokens'') (JNum 0)),
             (''cache_read_input_tokens'',
                or_js (getp usage ''cache_read_input_tokens'') (JNum 0))] @
            (if truthy (getp usage ''cache_creation'')
             then [(''cache_creation'',
                    JObj [(''ephemeral_5m_input_tokens'',
                             or_js (getp (getp usage ''cache_creation'')
                                      ''ephemeral_5m_input_tokens'') (JNum 0)),
                          (''ephemeral_1h_input_tokens'',
                             or_js (getp (getp usage ''cache_creation'')
                                      ''ephemeral_1h_input_tokens'') (JNum 0))])]
             else []))
         else []) @
        (if getp data ''type'' = JStr ''message_delta'' \<and> truthy (getp data ''usage'')
         then [(''output_tokens'', or_js (getp (getp data ''usage'') ''output_tokens'') (JNum 0))]
         else []))"

text \<open>The same for \<open>_parseOpenAIUsageFromSSE\<close>: the Chat Completions field
  \<open>data.usage\<close>, then the Responses field \<open>data.response.usage\<close>. Only the input,
  output and total counts are copied.\<close>

definition openai_updates :: "jsval \<Rightarrow> (string \<times> jsval) list" where
  "openai_updates data =
     (if nullish data then []
      else
        (if truthy (getp data ''usage'')
         then
           (let usage = getp data ''usage'' in
            [(''input_tokens'', or_js (getp usage ''prompt_tokens'') (JNum 0)),
             (''output_tokens'', or_js (getp usage ''completion_tokens'') (JNum 0)),
             (''total_tokens'', or_js (getp usage ''total_tokens'') (JNum 0))])
         else []) @
        (if truthy (getp data ''response'') \<and> truthy (getp (getp data ''response'') ''usage'')
         then
           (let usage = getp (getp data ''response'') ''usage'' in
            [(''input_tokens'',
                or_js (getp usage ''input_tokens'')
                  (or_js (getp usage ''prompt_tokens'')
                     (or_js (getp usage ''total_tokens'') (JNum 0)))),
             (''output_tokens'',
                or_js (getp usage ''output_tokens'')
                  (or_js (getp usage ''completion_tokens'') (JNum 0))),
             (''total_tokens'', or_js (getp usage ''total_tokens'') (JNum 0))])
         else []))"

text \<open>
  One line of the loop. \<open>JSON.parse\<close> belongs to the language runtime: it is the
  parameter \<open>parse\<close>, \<open>None\<close> when it throws (the \<open>catch\<close> ignores the line).
\<close>

definition anthropic_line :: "(string \<Rightarrow> jsval option) \<Rightarrow> string \<Rightarrow> (string \<times> jsval) list" where
  "anthropic_line parse line =
     (case data_payload line of
        None \<Rightarrow> []
      | Some jsonStr \<Rightarrow>
          (case parse jsonStr of
             None \<Rightarrow> []
           | Some data \<Rightarrow> anthropic_updates data))"

definition openai_line :: "(string \<Rightarrow> jsval option) \<Rightarrow> string \<Rightarrow> (string \<times> jsval) list" where
  "openai_line parse line =
     (case data_payload line of
        None \<Rightarrow> []
      | Some jsonStr \<Rightarrow>
          if jsonStr = ''[DONE]'' then []
          else (case parse jsonStr of
                  None \<Rightarrow> []
                | Some data \<Rightarrow> openai_updates data))"

text \<open>The two parsers: every line of \<open>buffer + chunkStr\<close>, in order.\<close>

definition parseAnthropicUsageFromSSE ::
  "(string \<Rightarrow> jsval option) \<Rightarrow> string \<Rightarrow> string \<Rightarrow> jsobj \<Rightarrow> jsobj" where
  "parseAnthropicUsageFromSSE parse chunkStr buffer currentUsageData =
     foldl (\<lambda>cur line. foldl assign cur (anthropic_line parse line)) currentUsageData
       (split_nl (buffer @ chunkStr))"

definition parseOpenAIUsageFromSSE ::
  "(string \<Rightarrow> jsval option) \<Rightarrow> string \<Rightarrow> string \<Rightarrow> jsobj \<Rightarrow> jsobj" where
  "parseOpenAIUsageFromSSE parse chunkStr buffer currentUsageData =
     foldl (\<lambda>cur line. foldl assign cur (openai_line parse line)) currentUsageData
       (split_nl (buffer @ chunkStr))"

text \<open>
  The \<open>data\<close> handler of the streaming path, on the state \<open>(buffer, currentUsageData)\<close>:
  the parser of the endpoint type reads the buffer with the new chunk, then
  \<open>buffer += chunkStr\<close>. \<open>stream_usage\<close> is \<open>currentUsageData\<close> at the \<open>end\<close> event,
  which \<open>_recordUsageFromStreamData\<close> normalises.
\<close>

definition on_data ::
  "(string \<Rightarrow> jsval option) \<Rightarrow> string \<Rightarrow> string \<times> jsobj \<Rightarrow> string \<Rightarrow> string \<times> jsobj" where
  "on_data parse endpointType s chunkStr =
     (case s of (buffer, currentUsageData) \<Rightarrow>
        (buffer @ chunkStr,
         if endpointType = ''anthropic''
         then parseAnthropicUsageFromSSE parse chunkStr buffer currentUsageData
         else if endpointType = ''openai''
         then parseOpenAIUsageFromSSE parse chunkStr buffer currentUsageData
         else currentUsageData))"

definition stream_usage :: "(string \<Rightarrow> jsval option) \<Rightarrow> string \<Rightarrow> string list \<Rightarrow> jsobj" where
  "stream_usage parse endpointType chunks =
     snd (foldl (on_data parse endpointType) ([], []) chunks)"

text \<open>The assignments of one pass over a text, and the line reader of an endpoint
  type.\<close>

definition upd_seq :: "(string \<Rightarrow> (string \<times> jsval) list) \<Rightarrow> string \<Rightarrow> (string \<times> jsval) list" where
  "upd_seq line_updates text = concat (map line_updates (split_nl text))"

definition line_updates ::
  "(string \<Rightarrow> jsval option) \<Rightarrow> string \<Rightarrow> string \<Rightarrow> (string \<times> jsval) list" where
  "line_updates parse endpointType line =
     (if endpointType = ''anthropic'' then anthropic_line parse line
      else if endpointType = ''openai'' then openai_line parse line
      else [])"

subsection \<open>Fixtures\<close>

text \<open>
  The events of an Anthropic Messages stream that carry usage, and the usage object of
  the buffered response with the same totals: the counts of \<open>message_start\<close> with the
  output count of \<open>message_delta\<close>.
\<close>

definition message_start :: "jsval \<Rightarrow> jsval" where
  "message_start usage =
     JObj [(''type'', JStr ''message_start''), (''message'', JObj [(''usage'', usage)])]"

definition message_delta :: "jsval \<Rightarrow> jsval" where
  "message_delta usage = JObj [(''type'', JStr ''message_delta''), (''usage'', usage)]"

definition buffered_usage :: "jsval \<Rightarrow> jsval \<Rightarrow> jsval" where
  "buffered_usage start_usage delta_usage =
     JObj [(''input_tokens'', getp start_usage ''input_tokens''),
           (''cache_creation_input_tokens'', getp start_usage ''cache_creation_input_tokens''),
           (''cache_read_input_tokens'', getp start_usage ''cache_read_input_tokens''),
           (''cache_creation'', getp start_usage ''cache_creation''),
           (''output_tokens'', getp delta_usage ''output_tokens'')]"

text \<open>A Messages stream of three events, cut into three chunks inside two of its
  lines; \<open>messages_parse\<close> is \<open>JSON.parse\<close> on the three payloads.\<close>

definition messages_start_usage :: jsobj where
  "messages_start_usage =
     [(''input_tokens'', JNum 25), (''cache_creation_input_tokens'', JNum 0),
      (''cache_read_input_tokens'', JNum 300), (''output_tokens'', JNum 1)]"

definition messages_delta_usage :: jsobj where
  "messages_delta_usage = [(''output_tokens'', JNum 15)]"

definition messages_payloads :: "string list" where
  \<open>messages_payloads =
     [''{"type":"message_start","message":{"usage":{"input_tokens":25,"cache_creation_input_tokens":0,"cache_read_input_tokens":300,"output_tokens":1}}}'',
      ''{"type":"message_delta","usage":{"output_tokens":15}}'',
      ''{"type":"message_stop"}'']\<close>

definition messages_parse :: "string \<Rightarrow> jsval option" where
  "messages_parse s =
     (if s = messages_payloads ! 0 then Some (message_start (JObj messages_start_usage))
      else if s = messages_payloads ! 1 then Some (message_delta (JObj messages_delta_usage))
      else if s = messages_payloads ! 2 then Some (JObj [(''type'', JStr ''message_stop'')])
      else None)"

definition messages_chunks :: "string list" where
  \<open>messages_chunks =
     [''event: message_start\<newline>data: {"type":"message_start","message":{"usage":{"input_tok'',
      ''ens":25,"cache_creation_input_tokens":0,"cache_read_input_tokens":300,"output_tokens":1}}}\<newline>\<newline>event: message_delta\<newline>da'',
      ''ta: {"type":"message_delta","usage":{"output_tokens":15}}\<newline>\<newline>event: message_stop\<newline>data: {"type":"message_stop"}\<newline>\<newline>'']\<close>

text \<open>
  An OpenAI Responses stream: the \<open>response.completed\<close> event carries the usage
  object of the response, with 80 of its 100 input tokens read from the cache. The
  buffered response carries the same object as \<open>usage\<close>.
\<close>

definition responses_usage :: jsval where
  "responses_usage =
     JObj [(''input_tokens'', JNum 100),
           (''input_tokens_details'', JObj [(''cached_tokens'', JNum 80)]),
           (''output_tokens'', JNum 20), (''total_tokens'', JNum 120)]"

definition responses_parse :: "string \<Rightarrow> jsval option" where
  \<open>responses_parse s =
     (if s = ''{"type":"response.completed","response":{"usage":{"input_tokens":100,"input_tokens_details":{"cached_tokens":80},"output_tokens":20,"total_tokens":120}}}''
      then Some (JObj [(''type'', JStr ''response.completed''),
                       (''response'', JObj [(''usage'', responses_usage)])])
      else None)\<close>

definition responses_chunks :: "string list" where
  \<open>responses_chunks =
     [''event: response.completed\<newline>data: {"type":"response.completed","respo'',
      ''nse":{"usage":{"input_tokens":100,"input_tokens_details":{"cached_tokens":80},"output_tokens":20,"total_tokens":120}}}\<newline>\<newline>'']\<close>

section \<open>Verified properties\<close>

subsection \<open>Usage normalisation\<close>

lemma toNumber_nonneg: "0 \<le> toNumber str2num v"
  by (simp add: toNumber_def split: option.split)

lemma toNumber_JNum_nonneg: "0 \<le> r \<Longrightarrow> toNumber str2num (JNum r) = r"
  by (simp add: toNumber_def)

lemma toNumber_coerced_zero:
  "v = JUndefined \<or> v = JNull \<or> v = JStr [] \<or> Number_js str2num v = None
     \<Longrightarrow> toNumber str2num v = 0"
  by (auto simp: toNumber_def)

lemma cache_create_rule_nonneg: "0 \<le> cache_create_rule str2num u"
  by (simp add: cache_create_rule_def toNumber_nonneg)

lemma normalize_fields:
  assumes "u \<noteq> JNull" "u \<noteq> JUndefined"
  shows "\<exists>n. normalizeUsageSnapshot str2num u = Inr n
     \<and> getp n ''input_tokens'' = JNum (toNumber str2num (raw_input u))
     \<and> getp n ''output_tokens'' = JNum (toNumber str2num (raw_output u))
     \<and> getp n ''cache_creation_input_tokens'' = JNum (cache_create_rule str2num u)
     \<and> getp n ''cache_read_input_tokens'' = JNum (toNumber str2num (raw_cache_read u))"
  using assms by (simp add: normalizeUsageSnapshot_def Let_def cache_create_rule_def)

lemma getTotalTokens_of_counts:
  assumes "getp n ''input_tokens'' = JNum i" "getp n ''output_tokens'' = JNum o'"
    "getp n ''cache_creation_input_tokens'' = JNum cc" "getp n ''cache_read_input_tokens'' = JNum cr"
    "0 \<le> i" "0 \<le> o'" "0 \<le> cc" "0 \<le> cr"
  shows "getTotalTokens str2num n = Inr (i + o' + cc + cr)"
proof -
  have "n \<noteq> JNull" "n \<noteq> JUndefined" using assms(1) by auto
  then show ?thesis using assms by (simp add: getTotalTokens_def toNumber_JNum_nonneg)
qed


lemma toNumber_coerced_number:
  "v \<noteq> JUndefined \<and> v \<noteq> JNull \<and> v \<noteq> JStr [] \<and> Number_js str2num v = Some x
     \<Longrightarrow> toNumber str2num v = max 0 x"
  by (simp add: toNumber_def)

text \<open>
  Claim C9, as amended. For every raw usage object but \<open>null\<close> (on which the first
  property read throws; \<open>undefined\<close> is replaced by the empty object),
  \<open>_normalizeUsageSnapshot\<close> returns a snapshot whose four token counts are
  non-negative numbers. Each count is the coercion of the first field of its chain that is
  neither missing nor \<open>null\<close>: input from \<open>input_tokens\<close>, \<open>prompt_tokens\<close>,
  \<open>inputTokens\<close>, \<open>total_input_tokens\<close>; output from \<open>output_tokens\<close>,
  \<open>completion_tokens\<close>, \<open>outputTokens\<close>; cache-read from
  \<open>cache_read_input_tokens\<close>, \<open>cacheReadTokens\<close>,
  \<open>input_tokens_details.cached_tokens\<close>; the top-level cache-creation total from
  \<open>cache_creation_input_tokens\<close>, \<open>cacheCreateTokens\<close>, \<open>cache_tokens\<close>; each
  ephemeral sub-field from \<open>cache_creation\<close> or, failing that, from the top level. The
  coercion gives 0 for a value that is missing, \<open>null\<close>, the empty string or not
  convertible to a finite number, and the number, or 0 if it is negative, otherwise. The
  cache-creation count is the sum of the two sub-fields when the top-level total coerces
  to 0 and a sub-field is positive, and the coerced top-level total otherwise.
  \<open>_getTotalTokens\<close> of the snapshot is input + output + cache-create + cache-read.
\<close>

theorem normalizeUsageSnapshot_counts:
  assumes "usageData \<noteq> JNull"
    and "u = (if usageData = JUndefined then JObj [] else usageData)"
  shows "\<exists>n i o' cc cr top e5 e1.
      normalizeUsageSnapshot str2num usageData = Inr n
    \<and> getp n ''input_tokens'' = JNum i \<and> getp n ''output_tokens'' = JNum o'
    \<and> getp n ''cache_creation_input_tokens'' = JNum cc
    \<and> getp n ''cache_read_input_tokens'' = JNum cr
    \<and> 0 \<le> i \<and> 0 \<le> o' \<and> 0 \<le> cc \<and> 0 \<le> cr
    \<and> i = toNumber str2num
            (coalesce (getp u ''input_tokens'')
               (coalesce (getp u ''prompt_tokens'')
                  (coalesce (getp u ''inputTokens'') (getp u ''total_input_tokens''))))
    \<and> o' = toNumber str2num
            (coalesce (getp u ''output_tokens'')
               (coalesce (getp u ''completion_tokens'') (getp u ''outputTokens'')))
    \<and> cr = toNumber str2num
            (coalesce (getp u ''cache_read_input_tokens'')
               (coalesce (getp u ''cacheReadTokens'')
                  (opt_getp (getp u ''input_tokens_details'') ''cached_tokens'')))
    \<and> top = toNumber str2num
            (coalesce (getp u ''cache_creation_input_tokens'')
               (coalesce (getp u ''cacheCreateTokens'')
                  (coalesce (getp u ''cache_tokens'') (JNum 0))))
    \<and> e5 = toNumber str2num
            (coalesce (opt_getp (getp u ''cache_creation'') ''ephemeral_5m_input_tokens'')
               (getp u ''ephemeral_5m_input_tokens''))
    \<and> e1 = toNumber str2num
            (coalesce (opt_getp (getp u ''cache_creation'') ''ephemeral_1h_input_tokens'')
               (getp u ''ephemeral_1h_input_tokens''))
    \<and> cc = (if top = 0 \<and> (e5 > 0 \<or> e1 > 0) then e5 + e1 else top)
    \<and> getTotalTokens str2num n = Inr (i + o' + cc + cr)
    \<and> (\<forall>v. v = JUndefined \<or> v = JNull \<or> v = JStr [] \<or> Number_js str2num v = None
           \<longrightarrow> toNumber str2num v = 0)
    \<and> (\<forall>v x. v \<noteq> JUndefined \<and> v \<noteq> JNull \<and> v \<noteq> JStr [] \<and> Number_js str2num v = Some x
           \<longrightarrow> toNumber str2num v = max 0 x)"
proof -
  let ?i = "toNumber str2num
            (coalesce (getp u ''input_tokens'')
               (coalesce (getp u ''prompt_tokens'')
                  (coalesce (getp u ''inputTokens'') (getp u ''total_input_tokens''))))"
  let ?o = "toNumber str2num
            (coalesce (getp u ''output_tokens'')
               (coalesce (getp u ''completion_tokens'') (getp u ''outputTokens'')))"
  let ?cr = "toNumber str2num
            (coalesce (getp u ''cache_read_input_tokens'')
               (coalesce (getp u ''cacheReadTokens'')
                  (opt_getp (getp u ''input_tokens_details'') ''cached_tokens'')))"
  let ?top = "toNumber str2num
            (coalesce (getp u ''cache_creation_input_tokens'')
               (coalesce (getp u ''cacheCreateTokens'')
                  (coalesce (getp u ''cache_tokens'') (JNum 0))))"
  let ?e5 = "toNumber str2num
            (coalesce (opt_getp (getp u ''cache_creation'') ''ephemeral_5m_input_tokens'')
               (getp u ''ephemeral_5m_input_tokens''))"
  let ?e1 = "toNumber str2num
            (coalesce (opt_getp (getp u ''cache_creation'') ''ephemeral_1h_input_tokens'')
               (getp u ''ephemeral_1h_input_tokens''))"
  let ?cc = "if ?top = 0 \<and> (?e5 > 0 \<or> ?e1 > 0) then ?e5 + ?e1 else ?top"
  have u: "u \<noteq> JNull" "u \<noteq> JUndefined" using assms by auto
  have same: "normalizeUsageSnapshot str2num usageData = normalizeUsageSnapshot str2num u"
    using assms(2) by (simp add: normalizeUsageSnapshot_def)
  obtain n where n: "normalizeUsageSnapshot str2num u = Inr n"
      "getp n ''input_tokens'' = JNum (toNumber str2num (raw_input u))"
      "getp n ''output_tokens'' = JNum (toNumber str2num (raw_output u))"
      "getp n ''cache_creation_input_tokens'' = JNum (cache_create_rule str2num u)"
      "getp n ''cache_read_input_tokens'' = JNum (toNumber str2num (raw_cache_read u))"
    using normalize_fields[OF u] by blast
  have r: "normalizeUsageSnapshot str2num usageData = Inr n"
    using same n(1) by simp
  have f1: "getp n ''input_tokens'' = JNum ?i"
    using n(2) unfolding raw_input_def .
  have f2: "getp n ''output_tokens'' = JNum ?o"
    using n(3) unfolding raw_output_def .
  have f3: "getp n ''cache_creation_input_tokens'' = JNum ?cc"
    using n(4) unfolding cache_create_rule_def rawCacheCreateTokens_def raw_ephemeral5m_def
      raw_ephemeral1h_def .
  have f4: "getp n ''cache_read_input_tokens'' = JNum ?cr"
    using n(5) unfolding raw_cache_read_def .
  note f = f1 f2 f3 f4
  have nn: "0 \<le> ?i" "0 \<le> ?o" "0 \<le> ?cr"
    by (rule toNumber_nonneg)+
  have "0 \<le> ?top" "0 \<le> ?e5" "0 \<le> ?e1"
    by (rule toNumber_nonneg)+
  then have ncc: "0 \<le> ?cc"
    by simp
  have tot: "getTotalTokens str2num n = Inr (?i + ?o + ?cc + ?cr)"
    by (rule getTotalTokens_of_counts[OF f nn(1,2) ncc nn(3)])
  have z: "\<forall>v. v = JUndefined \<or> v = JNull \<or> v = JStr [] \<or> Number_js str2num v = None
           \<longrightarrow> toNumber str2num v = 0"
    using toNumber_coerced_zero by blast
  have p: "\<forall>v x. v \<noteq> JUndefined \<and> v \<noteq> JNull \<and> v \<noteq> JStr [] \<and> Number_js str2num v = Some x
           \<longrightarrow> toNumber str2num v = max 0 x"
    using toNumber_coerced_number by blast
  show ?thesis
    apply (rule exI[of _ n])
    apply (rule exI[of _ ?i])
    apply (rule exI[of _ ?o])
    apply (rule exI[of _ ?cc])
    apply (rule exI[of _ ?cr])
    apply (rule exI[of _ ?top])
    apply (rule exI[of _ ?e5])
    apply (rule exI[of _ ?e1])
    apply (intro conjI)
    by (fact r f nn ncc tot z p | rule refl)+
qed

text \<open>Two usage objects: one with aliases, a string count and a top-level cache-creation
  total of 9, which is kept; one with a top-level total of 0, replaced by the sum 3 + 4.\<close>

theorem normalizeUsageSnapshot_counts_witness:
  "JObj [(''prompt_tokens'', JStr ''12''), (''completion_tokens'', JNum 5),
         (''cache_creation_input_tokens'', JNum 9),
         (''cache_creation'', JObj [(''ephemeral_5m_input_tokens'', JNum 3),
                                    (''ephemeral_1h_input_tokens'', JNum 4)]),
         (''input_tokens_details'', JObj [(''cached_tokens'', JNum 8)])] \<noteq> JNull
   \<and> (\<exists>n. normalizeUsageSnapshot (\<lambda>v. if v = JStr ''12'' then Some 12 else None)
          (JObj [(''prompt_tokens'', JStr ''12''), (''completion_tokens'', JNum 5),
                 (''cache_creation_input_tokens'', JNum 9),
                 (''cache_creation'', JObj [(''ephemeral_5m_input_tokens'', JNum 3),
                                            (''ephemeral_1h_input_tokens'', JNum 4)]),
                 (''input_tokens_details'', JObj [(''cached_tokens'', JNum 8)])]) = Inr n
        \<and> getp n ''input_tokens'' = JNum 12 \<and> getp n ''output_tokens'' = JNum 5
        \<and> getp n ''cache_creation_input_tokens'' = JNum 9
        \<and> getp n ''cache_read_input_tokens'' = JNum 8
        \<and> getTotalTokens (\<lambda>v. if v = JStr ''12'' then Some 12 else None) n = Inr 34)
   \<and> (\<exists>n. normalizeUsageSnapshot (\<lambda>v. None)
          (JObj [(''input_tokens'', JNum 12), (''output_tokens'', JStr ''abc''),
                 (''cache_creation_input_tokens'', JNum 0),
                 (''cache_creation'', JObj [(''ephemeral_5m_input_tokens'', JNum 3),
                                            (''ephemeral_1h_input_tokens'', JNum 4)]),
                 (''cache_read_input_tokens'', JNum 6)]) = Inr n
        \<and> getp n ''input_tokens'' = JNum 12 \<and> getp n ''output_tokens'' = JNum 0
        \<and> getp n ''cache_creation_input_tokens'' = JNum 7
        \<and> getp n ''cache_read_input_tokens'' = JNum 6
        \<and> getTotalTokens (\<lambda>v. None) n = Inr 25)"
proof -
  let ?a = "JObj [(''prompt_tokens'', JStr ''12''), (''completion_tokens'', JNum 5),
         (''cache_creation_input_tokens'', JNum 9),
         (''cache_creation'', JObj [(''ephemeral_5m_input_tokens'', JNum 3),
                                    (''ephemeral_1h_input_tokens'', JNum 4)]),
         (''input_tokens_details'', JObj [(''cached_tokens'', JNum 8)])]"
  let ?b = "JObj [(''input_tokens'', JNum 12), (''output_tokens'', JStr ''abc''),
                 (''cache_creation_input_tokens'', JNum 0),
                 (''cache_creation'', JObj [(''ephemeral_5m_input_tokens'', JNum 3),
                                            (''ephemeral_1h_input_tokens'', JNum 4)]),
                 (''cache_read_input_tokens'', JNum 6)]"
  have a: "?a \<noteq> JNull" and b: "?b \<noteq> JNull" by simp_all
  have ua: "?a = (if ?a = JUndefined then JObj [] else ?a)"
    and ub: "?b = (if ?b = JUndefined then JObj [] else ?b)" by simp_all
  have 1: "\<exists>n. normalizeUsageSnapshot (\<lambda>v. if v = JStr ''12'' then Some 12 else None) ?a = Inr n
        \<and> getp n ''input_tokens'' = JNum 12 \<and> getp n ''output_tokens'' = JNum 5
        \<and> getp n ''cache_creation_input_tokens'' = JNum 9
        \<and> getp n ''cache_read_input_tokens'' = JNum 8
        \<and> getTotalTokens (\<lambda>v. if v = JStr ''12'' then Some 12 else None) n = Inr 34"
    using normalizeUsageSnapshot_counts[OF a ua, of "\<lambda>v. if v = JStr ''12'' then Some 12 else None"]
    by (auto simp: toNumber_def coalesce_def opt_getp_def nullish_def)
  have 2: "\<exists>n. normalizeUsageSnapshot (\<lambda>v. None) ?b = Inr n
        \<and> getp n ''input_tokens'' = JNum 12 \<and> getp n ''output_tokens'' = JNum 0
        \<and> getp n ''cache_creation_input_tokens'' = JNum 7
        \<and> getp n ''cache_read_input_tokens'' = JNum 6
        \<and> getTotalTokens (\<lambda>v. None) n = Inr 25"
    using normalizeUsageSnapshot_counts[OF b ub, of "\<lambda>v. None"]
    by (auto simp: toNumber_def coalesce_def opt_getp_def nullish_def)
  show ?thesis using a 1 2 by blast
qed

text \<open>
  The claim as written has the sum of the sub-fields only when the top-level total is
  absent or zero. A top-level total of -5 is neither, and the count is the sum all the
  same, because the total is coerced to 0 before the test.
\<close>

theorem normalizeUsageSnapshot_negative_total_counterexample:
  "normalizeUsageSnapshot (\<lambda>v. None)
     (JObj [(''cache_creation_input_tokens'', JNum (- 5)),
            (''cache_creation'', JObj [(''ephemeral_5m_input_tokens'', JNum 3)])])
   = Inr (JObj [(''input_tokens'', JNum 0), (''output_tokens'', JNum 0),
                (''cache_creation_input_tokens'', JNum 3),
                (''cache_read_input_tokens'', JNum 0),
                (''cache_creation'', JObj [(''ephemeral_5m_input_tokens'', JNum 3),
                                           (''ephemeral_1h_input_tokens'', JNum 0)])])"
  by (simp add: normalizeUsageSnapshot_def toNumber_def raw_input_def raw_output_def
      raw_cache_read_def rawCacheCreateTokens_def raw_ephemeral5m_def raw_ephemeral1h_def
      coalesce_def opt_getp_def nullish_def)

subsection \<open>Recording usage\<close>

lemma zero_snapshot_total: "zero_snapshot n \<Longrightarrow> getTotalTokens str2num n = Inr 0"
  using getTotalTokens_of_counts[of n 0 0 0 0 str2num] by (simp add: zero_snapshot_def)

text \<open>
  Claim C10. When the normalized snapshot has all four token counts equal to zero,
  \<open>_recordUsage\<close> returns before it reaches either sink: the state of the per-key
  usage sink and of the per-account usage counter is unchanged, on the streaming path
  (\<open>_recordUsageFromStreamData\<close>) and on the buffered path (the recording step of
  \<open>_handleNonStreamResponse\<close>) alike.
\<close>

theorem recordUsage_zero_noop:
  "zero_snapshot n \<longrightarrow>
     recordUsage str2num st keyId account model n = Inr st
   \<and> (normalizeUsageSnapshot str2num usageData = Inr n \<longrightarrow>
        recordUsageFromStreamData str2num st usageData keyId account model = Inr (st, n))
   \<and> (\<not> nullish data \<and>
      normalizeUsageSnapshot str2num (or_js (getp data ''usage'') (JObj [])) = Inr n \<longrightarrow>
        handleNonStreamResponse_usage str2num st data keyId account model skip = Inr (st, n))"
  by (auto simp: recordUsage_def recordUsageFromStreamData_def
      handleNonStreamResponse_usage_def zero_snapshot_total Let_def)

theorem recordUsage_zero_noop_witness:
  "zero_snapshot (JObj [(''input_tokens'', JNum 0), (''output_tokens'', JNum 0),
       (''cache_creation_input_tokens'', JNum 0), (''cache_read_input_tokens'', JNum 0)])
   \<and> normalizeUsageSnapshot (\<lambda>v. None) (JObj []) =
       Inr (JObj [(''input_tokens'', JNum 0), (''output_tokens'', JNum 0),
       (''cache_creation_input_tokens'', JNum 0), (''cache_read_input_tokens'', JNum 0)])
   \<and> recordUsageFromStreamData (\<lambda>v. None)
        \<lparr>key_usage = [], account_usage = [], sinks_up = True\<rparr> (JObj []) (Some ''key-1'')
        None ''claude-sonnet-4-5-20250929''
       = Inr (\<lparr>key_usage = [], account_usage = [], sinks_up = True\<rparr>,
           JObj [(''input_tokens'', JNum 0), (''output_tokens'', JNum 0),
       (''cache_creation_input_tokens'', JNum 0), (''cache_read_input_tokens'', JNum 0)])
   \<and> handleNonStreamResponse_usage (\<lambda>v. None)
        \<lparr>key_usage = [], account_usage = [], sinks_up = True\<rparr>
        (JObj [(''id'', JStr ''msg_1''), (''usage'', JObj [])]) (Some ''key-1'')
        None ''claude-sonnet-4-5-20250929'' False
       = Inr (\<lparr>key_usage = [], account_usage = [], sinks_up = True\<rparr>,
           JObj [(''input_tokens'', JNum 0), (''output_tokens'', JNum 0),
       (''cache_creation_input_tokens'', JNum 0), (''cache_read_input_tokens'', JNum 0)])"
proof -
  let ?n = "JObj [(''input_tokens'', JNum 0), (''output_tokens'', JNum 0),
       (''cache_creation_input_tokens'', JNum 0), (''cache_read_input_tokens'', JNum 0)]"
  let ?st = "\<lparr>key_usage = [], account_usage = [], sinks_up = True\<rparr>"
  have z: "zero_snapshot ?n" by (simp add: zero_snapshot_def)
  have e: "normalizeUsageSnapshot (\<lambda>v. None) (JObj []) = Inr ?n"
    by (simp add: normalizeUsageSnapshot_def toNumber_def raw_input_def raw_output_def
        raw_cache_read_def rawCacheCreateTokens_def raw_ephemeral5m_def raw_ephemeral1h_def
        coalesce_def opt_getp_def nullish_def)
  have d: "or_js (getp (JObj [(''id'', JStr ''msg_1''), (''usage'', JObj [])]) ''usage'') (JObj [])
      = JObj []" by (simp add: or_js_def)
  have nn: "\<not> nullish (JObj [(''id'', JStr ''msg_1''), (''usage'', JObj [])])"
    by (simp add: nullish_def)
  show ?thesis
    using recordUsage_zero_noop[of ?n "\<lambda>v. None" ?st "Some ''key-1''" None
        "''claude-sonnet-4-5-20250929''" "JObj []"
        "JObj [(''id'', JStr ''msg_1''), (''usage'', JObj [])]" False] z e d nn
    by simp
qed

subsection \<open>Network error mapping\<close>

text \<open>
  Claim C7, as amended. \<open>_mapNetworkErrorStatus\<close> decides by the upper-cased error code
  first: the timeout codes give 408; connection reset, broken pipe, refused and
  unreachable give 503; DNS and certificate codes give 502. Only an error with none of
  these codes is classified by its lower-cased message: a message with "timeout" gives 504
  when it also names the gateway or the upstream and 408 otherwise; certificate, ssl or
  tls give 502; refused or unavailable give 503; dependency or "upstream failed" give 424;
  everything else gives 502.
\<close>

theorem mapNetworkErrorStatus_table:
  "(error_code e \<in> {''ECONNABORTED'', ''ETIMEDOUT''} \<longrightarrow> mapNetworkErrorStatus e = 408)
 \<and> (error_code e \<in> {''ECONNRESET'', ''EPIPE'', ''ECONNREFUSED'', ''ENETUNREACH'', ''EHOSTUNREACH''}
       \<longrightarrow> mapNetworkErrorStatus e = 503)
 \<and> (error_code e \<in> {''ENOTFOUND'', ''EAI_AGAIN'', ''CERT_HAS_EXPIRED'',
                     ''UNABLE_TO_VERIFY_LEAF_SIGNATURE''} \<longrightarrow> mapNetworkErrorStatus e = 502)
 \<and> (error_code e \<notin> {''ECONNABORTED'', ''ETIMEDOUT'', ''ECONNRESET'', ''EPIPE'', ''ECONNREFUSED'',
        ''ENETUNREACH'', ''EHOSTUNREACH'', ''ENOTFOUND'', ''EAI_AGAIN'', ''CERT_HAS_EXPIRED'',
        ''UNABLE_TO_VERIFY_LEAF_SIGNATURE''} \<longrightarrow>
      mapNetworkErrorStatus e =
        (if str_includes (message_of e) ''timeout'' then
           (if str_includes (message_of e) ''gateway'' \<or> str_includes (message_of e) ''upstream''
            then 504 else 408)
         else if str_includes (message_of e) ''certificate'' \<or> str_includes (message_of e) ''ssl''
                 \<or> str_includes (message_of e) ''tls'' then 502
         else if str_includes (message_of e) ''refused'' \<or>
                 str_includes (message_of e) ''unavailable'' then 503
         else if str_includes (message_of e) ''dependency'' \<or>
                 str_includes (message_of e) ''upstream failed'' then 424
         else 502))"
  by (cases e) (simp_all add: mapNetworkErrorStatus_def message_of_def Let_def)

text \<open>
  The claim as written sends every error outside its five categories to 502. An error
  without a code whose message reports a failed dependency is in none of them, and is
  mapped to 424.
\<close>

theorem mapNetworkErrorStatus_default_counterexample:
  "mapNetworkErrorStatus (Some \<lparr>err_code = None, err_message = Some ''Dependency failed''\<rparr>) = 424
   \<and> mapNetworkErrorStatus (Some \<lparr>err_code = None, err_message = Some ''Dependency failed''\<rparr>)
       \<noteq> 502"
  by (simp add: mapNetworkErrorStatus_def error_code_def error_message_def toUpperCase_def
      toLowerCase_def toLowerCase_char_def)

theorem mapNetworkErrorStatus_table_witness:
  "mapNetworkErrorStatus (Some \<lparr>err_code = Some ''ECONNRESET'', err_message = Some ''socket hang up''\<rparr>) = 503
 \<and> mapNetworkErrorStatus (Some \<lparr>err_code = Some ''etimedout'', err_message = Some ''gateway timeout''\<rparr>) = 408
 \<and> mapNetworkErrorStatus (Some \<lparr>err_code = None, err_message = Some ''Gateway Timeout''\<rparr>) = 504"
proof -
  have c1: "error_code (Some \<lparr>err_code = Some ''ECONNRESET'', err_message = Some ''socket hang up''\<rparr>) = ''ECONNRESET''"
    by (simp add: error_code_def toUpperCase_def toUpperCase_char_def)
  have c2: "error_code (Some \<lparr>err_code = Some ''etimedout'', err_message = Some ''gateway timeout''\<rparr>) = ''ETIMEDOUT''"
    by (simp add: error_code_def toUpperCase_def toUpperCase_char_def)
  have c3: "error_code (Some \<lparr>err_code = None, err_message = Some ''Gateway Timeout''\<rparr>) = []"
    by (simp add: error_code_def toUpperCase_def)
  have m3: "message_of (Some \<lparr>err_code = None, err_message = Some ''Gateway Timeout''\<rparr>) = ''gateway timeout''"
    by (simp add: message_of_def error_message_def toLowerCase_def toLowerCase_char_def)
  show ?thesis
    using mapNetworkErrorStatus_table[of "Some \<lparr>err_code = Some ''ECONNRESET'', err_message = Some ''socket hang up''\<rparr>"]
      mapNetworkErrorStatus_table[of "Some \<lparr>err_code = Some ''etimedout'', err_message = Some ''gateway timeout''\<rparr>"]
      mapNetworkErrorStatus_table[of "Some \<lparr>err_code = None, err_message = Some ''Gateway Timeout''\<rparr>"]
    unfolding c1 c2 c3 m3 by simp
qed

subsection \<open>Request body processing\<close>

lemma delete_absent: "map_of al k = None \<Longrightarrow> AList.delete k al = al"
  by (simp add: map_of_eq_None_iff)

lemma getp_JObj: "getp (JObj al) k = (case map_of al k of Some v \<Rightarrow> v | None \<Rightarrow> JUndefined)"
  by simp

lemma map_of_strip_metadata:
  "map_of (strip_metadata b) k = (if k = ''metadata'' then None else map_of b k)"
  by (auto simp: strip_metadata_def has_own_def AList.delete_conv)

lemma map_of_set_stream:
  "h = has_own b ''stream'' \<Longrightarrow>
   map_of (set_stream opts h b) k =
     (if k = ''stream'' then
        (if disableStreaming opts \<or> \<not> streamRequested opts
         then (if h then Some (JBool False) else None)
         else Some (JBool True))
      else map_of b k)"
  by (auto simp: set_stream_def has_own_def AList.update_conv AList.delete_conv)

lemma map_of_set_stream_other:
  "k \<noteq> ''stream'' \<Longrightarrow> map_of (set_stream opts h b) k = map_of b k"
  by (auto simp: set_stream_def AList.update_conv AList.delete_conv)

lemma SYSTEM_PROMPT_nonempty: "SYSTEM_PROMPT \<noteq> []"
  by (simp add: SYSTEM_PROMPT_def)

lemma is_prompt_item_promptBlock: "is_prompt_item promptBlock"
  by (simp add: is_prompt_item_def promptBlock_def)

lemma map_of_inject_anthropic_other:
  "k \<noteq> ''system'' \<Longrightarrow> map_of (inject_anthropic ep b) k = map_of b k"
  by (simp add: inject_anthropic_def AList.update_conv split: jsval.split)

lemma inject_anthropic_system:
  "\<exists>items. map_of (inject_anthropic ''anthropic'' b) ''system'' = Some (JArr items)
       \<and> list_ex is_prompt_item items"
  by (cases "map_of b ''system''")
     (auto simp: inject_anthropic_def SYSTEM_PROMPT_nonempty AList.update_conv
        is_prompt_item_promptBlock split: jsval.split)

lemma inject_anthropic_fixed:
  assumes "ep = ''anthropic'' \<longrightarrow>
     (\<exists>items. map_of p ''system'' = Some (JArr items) \<and> list_ex is_prompt_item items)"
  shows "inject_anthropic ep p = p"
  using assms by (auto simp: inject_anthropic_def)

lemma map_of_inject_openai_other:
  "inject_openai ep b = Inr b' \<Longrightarrow> k \<noteq> ''instructions'' \<Longrightarrow> map_of b' k = map_of b k"
  by (auto simp: inject_openai_def Let_def AList.update_conv split: if_splits jsval.splits)

lemma inject_openai_instructions:
  "inject_openai ''openai'' b = Inr b' \<Longrightarrow>
     \<exists>s. map_of b' ''instructions'' = Some (JStr s) \<and> prefix SYSTEM_PROMPT s"
  by (cases "map_of b ''instructions''")
     (auto simp: inject_openai_def Let_def AList.update_conv SYSTEM_PROMPT_nonempty
        split: if_splits jsval.splits)

lemma inject_openai_fixed:
  assumes "ep = ''openai'' \<longrightarrow>
     (\<exists>s. map_of p ''instructions'' = Some (JStr s) \<and> prefix SYSTEM_PROMPT s)"
  shows "inject_openai ep p = Inr p"
  using assms SYSTEM_PROMPT_nonempty by (auto simp: inject_openai_def Let_def)

lemma map_of_drop_top_p_other:
  "k \<noteq> ''top_p'' \<Longrightarrow> map_of (drop_top_p b) k = map_of b k"
  by (simp add: drop_top_p_def Let_def AList.delete_conv)

lemma drop_top_p_fixed:
  "nullish (getp (JObj p) ''temperature'') \<or> nullish (getp (JObj p) ''top_p'')
     \<Longrightarrow> drop_top_p p = p"
  by (auto simp: drop_top_p_def Let_def)

lemma drop_top_p_post:
  "nullish (getp (JObj (drop_top_p b)) ''temperature'') \<or>
   nullish (getp (JObj (drop_top_p b)) ''top_p'')"
  by (auto simp: drop_top_p_def Let_def AList.delete_conv nullish_def)

lemma strip_metadata_fixed: "map_of p ''metadata'' = None \<Longrightarrow> strip_metadata p = p"
  by (simp add: strip_metadata_def has_own_def)

lemma set_stream_fixed:
  assumes "map_of p ''stream'' =
     (if disableStreaming opts \<or> \<not> streamRequested opts
      then (if h then Some (JBool False) else None) else Some (JBool True))"
  shows "set_stream opts (has_own p ''stream'') p = p"
  using assms by (auto simp: set_stream_def has_own_def AList.update_triv split: if_splits)


lemma processRequestBody_fixed:
  assumes r: "processRequestBody body ep opts = Inr p"
  shows "processRequestBody p ep opts = Inr p"
proof -
  define b2 where "b2 = set_stream opts (has_own body ''stream'') (strip_metadata body)"
  define b3 where "b3 = inject_anthropic ep b2"
  have hs: "has_own (strip_metadata body) ''stream'' = has_own body ''stream''"
    by (simp add: has_own_def map_of_strip_metadata)
  obtain b4 where b4: "inject_openai ep b3 = Inr b4" and p: "p = drop_top_p b4"
    using r unfolding processRequestBody_def Let_def b3_def b2_def
    by (auto split: sum.splits)
  have meta: "map_of p ''metadata'' = None"
    by (simp add: p map_of_drop_top_p_other map_of_inject_openai_other[OF b4] b3_def
        map_of_inject_anthropic_other b2_def map_of_set_stream_other map_of_strip_metadata)
  have stream: "map_of p ''stream'' =
     (if disableStreaming opts \<or> \<not> streamRequested opts
      then (if has_own body ''stream'' then Some (JBool False) else None) else Some (JBool True))"
    by (simp add: p map_of_drop_top_p_other map_of_inject_openai_other[OF b4] b3_def
        map_of_inject_anthropic_other b2_def map_of_set_stream hs)
  have sys: "ep = ''anthropic'' \<longrightarrow>
     (\<exists>items. map_of p ''system'' = Some (JArr items) \<and> list_ex is_prompt_item items)"
    using inject_anthropic_system[of b2]
    by (auto simp: p map_of_drop_top_p_other map_of_inject_openai_other[OF b4] b3_def)
  have ins: "ep = ''openai'' \<longrightarrow>
     (\<exists>s. map_of p ''instructions'' = Some (JStr s) \<and> prefix SYSTEM_PROMPT s)"
    using inject_openai_instructions[of b3 b4] b4
    by (auto simp: p map_of_drop_top_p_other)
  have top: "nullish (getp (JObj p) ''temperature'') \<or> nullish (getp (JObj p) ''top_p'')"
    unfolding p by (rule drop_top_p_post)
  have s1: "strip_metadata p = p" by (rule strip_metadata_fixed[OF meta])
  have s2: "set_stream opts (has_own p ''stream'') p = p" by (rule set_stream_fixed[OF stream])
  have s3: "inject_anthropic ep p = p" by (rule inject_anthropic_fixed[OF sys])
  have s4: "inject_openai ep p = Inr p" by (rule inject_openai_fixed[OF ins])
  have s5: "drop_top_p p = p" by (rule drop_top_p_fixed[OF top])
  show ?thesis
    by (simp add: processRequestBody_def Let_def s1 s2 s3 s4 s5)
qed

lemma processRequestBody_stream:
  assumes r: "processRequestBody body ep opts = Inr p"
  shows "map_of p ''stream'' =
     (if disableStreaming opts \<or> \<not> streamRequested opts
      then (if has_own body ''stream'' then Some (JBool False) else None) else Some (JBool True))"
proof -
  define b2 where "b2 = set_stream opts (has_own body ''stream'') (strip_metadata body)"
  define b3 where "b3 = inject_anthropic ep b2"
  have hs: "has_own (strip_metadata body) ''stream'' = has_own body ''stream''"
    by (simp add: has_own_def map_of_strip_metadata)
  obtain b4 where b4: "inject_openai ep b3 = Inr b4" and p: "p = drop_top_p b4"
    using r unfolding processRequestBody_def Let_def b3_def b2_def
    by (auto split: sum.splits)
  show ?thesis
    by (simp add: p map_of_drop_top_p_other map_of_inject_openai_other[OF b4] b3_def
        map_of_inject_anthropic_other b2_def map_of_set_stream hs)
qed

lemma relay_process_fixed:
  assumes r: "relay_process disable ep body = Inr p"
  shows "relay_process disable ep p = Inr p"
proof -
  let ?opts = "\<lparr>disableStreaming = disable,
        streamRequested = (\<not> disable \<and> isStreamRequested body)\<rparr>"
  have r': "processRequestBody body ep ?opts = Inr p" using r by (simp add: relay_process_def)
  have st: "isStreamRequested p = (\<not> disable \<and> isStreamRequested body)"
    using processRequestBody_stream[OF r']
    by (auto simp: isStreamRequested_def Let_def split: if_splits)
  have "(\<not> disable \<and> isStreamRequested p) = (\<not> disable \<and> isStreamRequested body)"
    using st by auto
  then show ?thesis
    using processRequestBody_fixed[OF r'] by (simp add: relay_process_def)
qed


text \<open>
  Claim C8. \<open>_processRequestBody\<close> is idempotent: processing an already processed body
  with the same endpoint type and options returns that body unchanged, and so does the
  relay's own call, which derives \<open>streamRequested\<close> from the body it processes. In
  particular the system prompt is not added a second time, neither as a text block of the
  Anthropic \<open>system\<close> array nor as a prefix of the OpenAI \<open>instructions\<close>.
\<close>

theorem processRequestBody_idempotent:
  "(processRequestBody body ep opts = Inr p \<longrightarrow> processRequestBody p ep opts = Inr p)
 \<and> (relay_process disable ep body = Inr p' \<longrightarrow> relay_process disable ep p' = Inr p')"
  using processRequestBody_fixed relay_process_fixed by blast

theorem processRequestBody_idempotent_witness:
  "processRequestBody
     [(''model'', JStr ''claude-sonnet-4-5-20250929''), (''stream'', JBool True),
      (''metadata'', JObj [(''user_id'', JStr ''u1'')]),
      (''system'', JArr [JObj [(''type'', JStr ''text''), (''text'', JStr ''Be terse.'')]]),
      (''temperature'', JNum 1), (''top_p'', JNum 1)]
     ''anthropic'' \<lparr>disableStreaming = False, streamRequested = True\<rparr>
   = Inr [(''model'', JStr ''claude-sonnet-4-5-20250929''), (''stream'', JBool True),
      (''system'', JArr [promptBlock,
                         JObj [(''type'', JStr ''text''), (''text'', JStr ''Be terse.'')]]),
      (''temperature'', JNum 1)]
 \<and> processRequestBody
     [(''model'', JStr ''claude-sonnet-4-5-20250929''), (''stream'', JBool True),
      (''system'', JArr [promptBlock,
                         JObj [(''type'', JStr ''text''), (''text'', JStr ''Be terse.'')]]),
      (''temperature'', JNum 1)]
     ''anthropic'' \<lparr>disableStreaming = False, streamRequested = True\<rparr>
   = Inr [(''model'', JStr ''claude-sonnet-4-5-20250929''), (''stream'', JBool True),
      (''system'', JArr [promptBlock,
                         JObj [(''type'', JStr ''text''), (''text'', JStr ''Be terse.'')]]),
      (''temperature'', JNum 1)]"
proof -
  let ?b = "[(''model'', JStr ''claude-sonnet-4-5-20250929''), (''stream'', JBool True),
      (''metadata'', JObj [(''user_id'', JStr ''u1'')]),
      (''system'', JArr [JObj [(''type'', JStr ''text''), (''text'', JStr ''Be terse.'')]]),
      (''temperature'', JNum 1), (''top_p'', JNum 1)]"
  let ?p = "[(''model'', JStr ''claude-sonnet-4-5-20250929''), (''stream'', JBool True),
      (''system'', JArr [promptBlock,
                         JObj [(''type'', JStr ''text''), (''text'', JStr ''Be terse.'')]]),
      (''temperature'', JNum 1)]"
  let ?o = "\<lparr>disableStreaming = False, streamRequested = True\<rparr>"
  have once: "processRequestBody ?b ''anthropic'' ?o = Inr ?p"
    by (simp add: processRequestBody_def strip_metadata_def set_stream_def inject_anthropic_def
        inject_openai_def drop_top_p_def has_own_def is_prompt_item_def nullish_def
        SYSTEM_PROMPT_def)
  show ?thesis
    using once processRequestBody_idempotent[of ?b "''anthropic''" ?o ?p] by simp
qed

lemma processRequestBody_openai_once:
  "processRequestBody [(''instructions'', JStr ''Answer in French.'')] ''openai''
      \<lparr>disableStreaming = True, streamRequested = False\<rparr>
   = Inr [(''instructions'', JStr (SYSTEM_PROMPT @ ''Answer in French.''))]"
  by (simp add: processRequestBody_def strip_metadata_def set_stream_def inject_anthropic_def
        inject_openai_def drop_top_p_def has_own_def nullish_def SYSTEM_PROMPT_def)

subsection \<open>Account selection\<close>

text \<open>\<open>parseInt\<close> reads a printed integer back.\<close>

lemma digit_char_digit: "d < 10 \<Longrightarrow> digit_char d \<in> set ''0123456789''"
  by (simp add: digit_char_def del: set_simps)

lemma dec_digit_digit_char: "d < 10 \<Longrightarrow> dec_digit (digit_char d) = Some d"
proof -
  assume "d < 10"
  then have "d = 0 \<or> d = 1 \<or> d = 2 \<or> d = 3 \<or> d = 4 \<or> d = 5 \<or> d = 6 \<or> d = 7 \<or> d = 8 \<or> d = 9"
    by arith
  then show ?thesis
    by (elim disjE) (simp_all add: dec_digit_def digit_char_def upt_rec)
qed

lemma digit_plain:
  assumes "c \<in> set ''0123456789''"
  shows "dec_digit c \<noteq> None" and "\<not> is_space c" and "c \<noteq> CHR ''-''" and "c \<noteq> CHR ''+''"
    and "c \<noteq> CHR ''x''" and "c \<noteq> CHR ''X''"
  using assms by (auto simp: dec_digit_def is_space_def upt_rec)

lemma decimal_nonempty: "decimal n \<noteq> []"
  by (subst decimal.simps) simp

lemma decimal_chars: "c \<in> set (decimal n) \<Longrightarrow> c \<in> set ''0123456789''"
proof (induction n rule: decimal.induct)
  case (1 n)
  show ?case
  proof (cases "n < 10")
    case True
    then have "decimal n = [digit_char n]" by (subst decimal.simps) simp
    then show ?thesis using 1(2) digit_char_digit[OF True] by simp
  next
    case False
    have d: "decimal n = decimal (n div 10) @ [digit_char (n mod 10)]"
      using False by (subst decimal.simps) simp
    have "n mod 10 < 10" by simp
    then have "digit_char (n mod 10) \<in> set ''0123456789''" by (rule digit_char_digit)
    then show ?thesis using 1(1)[OF False] 1(2) unfolding d by auto
  qed
qed

lemma digits_value_decimal:
  "digits_value 10 dec_digit acc (decimal n @ rest)
     = digits_value 10 dec_digit (acc * 10 ^ length (decimal n) + n) rest"
proof (induction n arbitrary: acc rest rule: decimal.induct)
  case (1 n)
  show ?case
  proof (cases "n < 10")
    case True
    then have "decimal n = [digit_char n]" by (subst decimal.simps) simp
    then show ?thesis using True by (simp add: dec_digit_digit_char)
  next
    case False
    have d: "decimal n = decimal (n div 10) @ [digit_char (n mod 10)]"
      using False by (subst decimal.simps) simp
    have m: "n mod 10 < 10" by simp
    have "digits_value 10 dec_digit acc (decimal n @ rest)
        = digits_value 10 dec_digit acc (decimal (n div 10) @ (digit_char (n mod 10) # rest))"
      by (simp add: d)
    also have "\<dots> = digits_value 10 dec_digit
                        (acc * 10 ^ length (decimal (n div 10)) + n div 10)
                        (digit_char (n mod 10) # rest)"
      by (rule 1[OF False])
    also have "\<dots> = digits_value 10 dec_digit
                        ((acc * 10 ^ length (decimal (n div 10)) + n div 10) * 10 + n mod 10) rest"
      by (simp add: dec_digit_digit_char[OF m])
    also have "(acc * 10 ^ length (decimal (n div 10)) + n div 10) * 10 + n mod 10
        = acc * 10 ^ length (decimal n) + n"
      by (simp add: d algebra_simps)
    finally show ?thesis .
  qed
qed

lemma parse_magnitude_decimal: "parse_magnitude (decimal n) = Some n"
proof -
  obtain c cs where d: "decimal n = c # cs"
    using decimal_nonempty[of n] by (cases "decimal n") auto
  have all: "\<forall>x\<in>set (c # cs). x \<in> set ''0123456789''"
    using decimal_chars[of _ n] unfolding d by blast
  have c: "dec_digit c \<noteq> None"
    using all digit_plain(1) by simp
  have nx: "\<not> prefix ''0x'' (c # cs)" "\<not> prefix ''0X'' (c # cs)"
  proof -
    have "CHR ''x'' \<notin> set (c # cs)" "CHR ''X'' \<notin> set (c # cs)"
      using all digit_plain(5,6) by blast+
    then show "\<not> prefix ''0x'' (c # cs)" "\<not> prefix ''0X'' (c # cs)"
      by (auto simp: prefix_def)
  qed
  have v: "digits_value 10 dec_digit 0 (c # cs) = n"
    using digits_value_decimal[of 0 n "[]"] by (simp add: d)
  have "parse_magnitude (c # cs) =
      (if dec_digit c = None then None else Some (digits_value 10 dec_digit 0 (c # cs)))"
    by (simp only: parse_magnitude_def nx simp_thms if_False list.case)
  then show ?thesis
    unfolding d using c v by simp
qed

lemma parseInt_str_show_int: "parseInt_str (show_int i) = Some i"
proof (cases "i < 0")
  case True
  have "\<not> is_space CHR ''-''" by (simp add: is_space_def)
  then show ?thesis
    using True by (simp add: parseInt_str_def show_int_def parse_magnitude_decimal)
next
  case False
  obtain c cs where d: "decimal (nat i) = c # cs"
    using decimal_nonempty[of "nat i"] by (cases "decimal (nat i)") auto
  have "c \<in> set ''0123456789''"
    using decimal_chars[of c "nat i"] by (simp add: d)
  then have c: "\<not> is_space c" "c \<noteq> CHR ''-''" "c \<noteq> CHR ''+''"
    by (rule digit_plain)+
  have "parse_magnitude (c # cs) = Some (nat i)"
    using parse_magnitude_decimal[of "nat i"] by (simp add: d)
  then show ?thesis
    using False c by (simp add: parseInt_str_def show_int_def d)
qed

lemma parseInt_integer:
  "of_int \<lfloor>x\<rfloor> = x \<Longrightarrow> \<bar>x\<bar> < 2 ^ 53 \<Longrightarrow> parseInt tostr (JNum x) = Some \<lfloor>x\<rfloor>"
  by (simp add: parseInt_def Number_toString_def parseInt_str_show_int)

lemma parseInt_missing: "parseInt tostr JUndefined = None" "parseInt tostr JNull = None"
  by (simp_all add: parseInt_def parseInt_str_def is_space_def parse_magnitude_def
      dec_digit_def upt_rec)

lemma hd_sort_key_min:
  assumes "xs \<noteq> []"
  shows "hd (sort_key f xs) \<in> set xs \<and> (\<forall>x\<in>set xs. f (hd (sort_key f xs)) \<le> f x)"
proof -
  have ne: "sort_key f xs \<noteq> []" using assms by (metis length_0_conv length_sort)
  then obtain y ys where ys: "sort_key f xs = y # ys" by (cases "sort_key f xs") auto
  have "sorted (map f (y # ys))" using sorted_sort_key[of f xs] by (simp add: ys)
  then have "\<forall>z\<in>set (y # ys). f y \<le> f z" by auto
  moreover have "set (y # ys) = set xs" using set_sort[of f xs] by (simp add: ys)
  ultimately show ?thesis unfolding ys by auto
qed

lemma highestPriority_integer:
  assumes "integer_priority a"
  shows "or_js (priority a) (JNum 50) = JNum (of_int (eff_priority tostr a))"
proof (cases "priority a")
  case JUndefined
  then show ?thesis by (simp add: or_js_def eff_priority_def parseInt_missing)
next
  case JNull
  then show ?thesis by (simp add: or_js_def eff_priority_def parseInt_missing)
next
  case (JNum x)
  then have i: "of_int \<lfloor>x\<rfloor> = x" "\<bar>x\<bar> < 2 ^ 53"
    using assms by (simp_all add: integer_priority_def)
  have z: "(\<lfloor>x\<rfloor> = 0) = (x = 0)"
    using i(1) by (metis floor_zero of_int_0)
  have e: "eff_priority tostr a = (if x = 0 then 50 else \<lfloor>x\<rfloor>)"
    by (simp add: JNum eff_priority_def parseInt_integer[OF i] z)
  show ?thesis
  proof (cases "x = 0")
    case True
    then show ?thesis by (simp add: JNum e or_js_def)
  next
    case False
    then have "or_js (priority a) (JNum 50) = JNum x" by (simp add: JNum or_js_def)
    moreover have "eff_priority tostr a = \<lfloor>x\<rfloor>" using False e by simp
    ultimately show ?thesis by (simp only: i(1))
  qed
qed (use assms in \<open>simp_all add: integer_priority_def\<close>)

lemma selectFromSameGroup_integer:
  assumes ne: "accounts \<noteq> []" and num: "\<forall>a\<in>set accounts. integer_priority a"
  shows "\<exists>a. selectFromSameGroup tostr accounts = Inr (Some a) \<and> a \<in> set accounts
     \<and> (\<forall>b\<in>set accounts. eff_priority tostr b \<le> eff_priority tostr a)
     \<and> (\<forall>b\<in>set accounts. eff_priority tostr b = eff_priority tostr a
            \<longrightarrow> lastUsed a \<le> lastUsed b)"
proof -
  let ?eff = "eff_priority tostr"
  define S where "S = sort_key (\<lambda>a. - ?eff a) accounts"
  have Sne: "S \<noteq> []" using ne unfolding S_def by (metis length_0_conv length_sort)
  then obtain f rest where S: "S = f # rest" by (cases S) auto
  have hd: "f \<in> set accounts \<and> (\<forall>x\<in>set accounts. - ?eff f \<le> - ?eff x)"
    using hd_sort_key_min[OF ne, of "\<lambda>a. - ?eff a"] by (simp add: S_def[symmetric] S)
  then have fin: "f \<in> set accounts" and fmax: "\<forall>x\<in>set accounts. ?eff x \<le> ?eff f"
    by auto
  have hp: "or_js (priority f) (JNum 50) = JNum (of_int (?eff f))"
    using highestPriority_integer num fin by blast
  define H where "H = filter (\<lambda>a. JNum (of_int (?eff a)) = JNum (of_int (?eff f))) S"
  have setS: "set S = set accounts" by (simp add: S_def)
  have setH: "set H = {a \<in> set accounts. ?eff a = ?eff f}"
    by (auto simp: H_def setS)
  have "f \<in> set H" using fin by (simp add: setH)
  then have Hne: "H \<noteq> []" by auto
  have sel: "selectFromSameGroup tostr accounts =
     (if length H = 1 then Inr (Some (hd H))
      else (case sort_key lastUsed H of [] \<Rightarrow> Inr None | a # as \<Rightarrow> Inr (Some a)))"
    by (simp add: selectFromSameGroup_def S_def[symmetric] S hp H_def Let_def)
  have min: "hd (sort_key lastUsed H) \<in> set H \<and>
      (\<forall>x\<in>set H. lastUsed (hd (sort_key lastUsed H)) \<le> lastUsed x)"
    by (rule hd_sort_key_min[OF Hne])
  show ?thesis
  proof (cases "length H = 1")
    case True
    then obtain h where h: "H = [h]" by (cases H) auto
    have hH: "h \<in> set H" by (simp add: h)
    have h1: "h \<in> set accounts" and h2: "?eff h = ?eff f"
      using hH unfolding setH by simp_all
    have h3: "\<forall>b\<in>set accounts. ?eff b = ?eff h \<longrightarrow> lastUsed h \<le> lastUsed b"
    proof (intro ballI impI)
      fix b assume "b \<in> set accounts" "?eff b = ?eff h"
      then have "b \<in> set H" unfolding setH using h2 by simp
      then have "b = h" by (simp add: h)
      then show "lastUsed h \<le> lastUsed b" by simp
    qed
    have r: "selectFromSameGroup tostr accounts = Inr (Some h)" using sel True by (simp add: h)
    show ?thesis
      by (rule exI[of _ h]) (simp add: r h1 h2 h3 fmax)
  next
    case False
    have sne: "sort_key lastUsed H \<noteq> []" using Hne by (metis length_0_conv length_sort)
    then obtain a as where a: "sort_key lastUsed H = a # as" by (cases "sort_key lastUsed H") auto
    have r: "selectFromSameGroup tostr accounts = Inr (Some a)" using sel False a by simp
    have aH: "a \<in> set H" and amin: "\<forall>x\<in>set H. lastUsed a \<le> lastUsed x"
      using min a by auto
    have a1: "a \<in> set accounts" and a2: "?eff a = ?eff f"
      using aH unfolding setH by simp_all
    have a3: "\<forall>b\<in>set accounts. ?eff b = ?eff a \<longrightarrow> lastUsed a \<le> lastUsed b"
    proof (intro ballI impI)
      fix b assume "b \<in> set accounts" "?eff b = ?eff a"
      then have "b \<in> set H" unfolding setH using a2 by simp
      then show "lastUsed a \<le> lastUsed b" using amin by blast
    qed
    show ?thesis
      by (rule exI[of _ a]) (simp add: r a1 a2 a3 fmax)
  qed
qed

lemma foldl_group_push:
  "foldl group_push g xs =
     \<lparr>low = low g @ filter (\<lambda>a. usage_of a < 0.3) xs,
      medium = medium g @ filter (\<lambda>a. \<not> usage_of a < 0.3 \<and> usage_of a < 0.5) xs,
      high = high g @ filter (\<lambda>a. \<not> usage_of a < 0.5 \<and> usage_of a < 0.8) xs,
      critical = critical g @ filter (\<lambda>a. \<not> usage_of a < 0.8) xs\<rparr>"
proof (induction xs arbitrary: g)
  case Nil
  then show ?case by simp
next
  case (Cons x xs)
  show ?case
    unfolding foldl_Cons Cons.IH
    by (cases "usage_of x < 0.3"; cases "usage_of x < 0.5"; cases "usage_of x < 0.8")
       (simp_all add: group_push_def Let_def)
qed

lemma groupAccountsByUsage_bands:
  "groupAccountsByUsage accounts =
     \<lparr>low = filter (\<lambda>a. usage_of a < 0.3) accounts,
      medium = filter (\<lambda>a. \<not> usage_of a < 0.3 \<and> usage_of a < 0.5) accounts,
      high = filter (\<lambda>a. \<not> usage_of a < 0.5 \<and> usage_of a < 0.8) accounts,
      critical = filter (\<lambda>a. \<not> usage_of a < 0.8) accounts\<rparr>"
  by (simp add: groupAccountsByUsage_def foldl_group_push)

lemma select_loop_integer:
  assumes "\<forall>g\<in>set gs. \<forall>a\<in>set g. integer_priority a" and "\<exists>g\<in>set gs. g \<noteq> []"
  shows "\<exists>a. select_loop tostr gs = Inr (Some a) \<and> a \<in> set (first_nonempty gs)"
  using assms
proof (induction gs)
  case Nil
  then show ?case by simp
next
  case (Cons g gs)
  show ?case
  proof (cases "g = []")
    case True
    then have "\<exists>a. select_loop tostr gs = Inr (Some a) \<and> a \<in> set (first_nonempty gs)"
      using Cons by auto
    then show ?thesis using True by (simp add: first_nonempty_def)
  next
    case False
    have fn: "first_nonempty (g # gs) = g" using False by (simp add: first_nonempty_def)
    show ?thesis
    proof (cases "length g = 1")
      case True
      then obtain x where "g = [x]" by (cases g) auto
      then show ?thesis using fn by simp
    next
      case l: False
      obtain a where a: "selectFromSameGroup tostr g = Inr (Some a)" "a \<in> set g"
        using selectFromSameGroup_integer[OF False, of tostr] Cons.prems(1) by auto
      show ?thesis using a False l by (simp add: fn)
    qed
  qed
qed

text \<open>
  When every priority is an integer (or missing), selection returns an account of the
  first non-empty band; and two accounts at 20% and 70% usage are in different bands, so
  the one at 20% is selected whatever their priorities are.
\<close>

lemma selectFromGroups_integer_first_band:
  assumes "accounts \<noteq> []" and "\<forall>a\<in>set accounts. integer_priority a"
  shows "\<exists>a. selectFromGroups tostr (groupAccountsByUsage accounts) = Inr (Some a)
     \<and> a \<in> set (first_nonempty (bands (groupAccountsByUsage accounts)))"
proof -
  let ?g = "groupAccountsByUsage accounts"
  have num: "\<forall>g\<in>set (bands ?g). \<forall>a\<in>set g. integer_priority a"
    using assms(2) by (auto simp: bands_def groupAccountsByUsage_bands)
  obtain x xs where x: "accounts = x # xs" using assms(1) by (cases accounts) auto
  have "x \<in> set (low ?g) \<or> x \<in> set (medium ?g) \<or> x \<in> set (high ?g) \<or> x \<in> set (critical ?g)"
    by (auto simp: groupAccountsByUsage_bands x)
  then have "\<exists>g\<in>set (bands ?g). g \<noteq> []" by (auto simp: bands_def)
  from select_loop_integer[OF num this] show ?thesis
    by (simp add: selectFromGroups_def bands_def)
qed

lemma selectFromGroups_20_70:
  assumes "usage_of a = 0.2" "usage_of b = 0.7"
  shows "selectFromGroups tostr (groupAccountsByUsage [a, b]) = Inr (Some a)"
    and "selectFromGroups tostr (groupAccountsByUsage [b, a]) = Inr (Some a)"
  using assms by (simp_all add: groupAccountsByUsage_bands selectFromGroups_def)

text \<open>
  Claim C1 at a failing input. Three accounts whose priority is the string "50": A and B
  at 20% usage, C at 70%. The low band holds A and B, but \<open>_selectFromSameGroup\<close>
  compares the parsed priority 50 with the unparsed "50" of the first account, keeps no
  account and returns \<open>undefined\<close>; \<open>_selectFromGroups\<close> then passes the low band
  over and returns C from the high band.
\<close>

theorem selectFromGroups_string_priority_skips_band:
  "low (groupAccountsByUsage
      [\<lparr>acc_id = ''A'', priority = JStr ''50'', lastUsedAt = Some 1000, usagePercentage = Some 0.2\<rparr>,
       \<lparr>acc_id = ''B'', priority = JStr ''50'', lastUsedAt = Some 2000, usagePercentage = Some 0.2\<rparr>,
       \<lparr>acc_id = ''C'', priority = JStr ''50'', lastUsedAt = Some 3000, usagePercentage = Some 0.7\<rparr>])
   = [\<lparr>acc_id = ''A'', priority = JStr ''50'', lastUsedAt = Some 1000, usagePercentage = Some 0.2\<rparr>,
      \<lparr>acc_id = ''B'', priority = JStr ''50'', lastUsedAt = Some 2000, usagePercentage = Some 0.2\<rparr>]
 \<and> selectFromGroups tostr (groupAccountsByUsage
      [\<lparr>acc_id = ''A'', priority = JStr ''50'', lastUsedAt = Some 1000, usagePercentage = Some 0.2\<rparr>,
       \<lparr>acc_id = ''B'', priority = JStr ''50'', lastUsedAt = Some 2000, usagePercentage = Some 0.2\<rparr>,
       \<lparr>acc_id = ''C'', priority = JStr ''50'', lastUsedAt = Some 3000, usagePercentage = Some 0.7\<rparr>])
   = Inr (Some \<lparr>acc_id = ''C'', priority = JStr ''50'', lastUsedAt = Some 3000,
                usagePercentage = Some 0.7\<rparr>)"
  by (simp add: groupAccountsByUsage_bands usage_of_def selectFromGroups_def
      selectFromSameGroup_def eff_priority_def parseInt_def parseInt_str_def is_space_def
      parse_magnitude_def dec_digit_def upt_rec or_js_def)

text \<open>
  Claim C2, as amended. For a band whose priorities are integers of magnitude below 2^53
  (or missing), \<open>_selectFromSameGroup\<close> returns an account of the band with the maximum
  effective priority, where a priority of 0 or a missing one counts as 50, and among the
  accounts tied at that priority one with the smallest \<open>lastUsedAt\<close> (a missing one
  counting as 0). When one account alone has the maximum, it is the one returned. The
  effective priority is \<open>parseInt(a.priority) || 50\<close>; for these priorities it is the
  priority itself unless that is 0 or missing.
\<close>

theorem selectFromSameGroup_priority_then_lru:
  assumes "accounts \<noteq> []" and "\<forall>a\<in>set accounts. integer_priority a"
  shows "\<exists>a. selectFromSameGroup tostr accounts = Inr (Some a) \<and> a \<in> set accounts
     \<and> (\<forall>b\<in>set accounts. eff_priority tostr b \<le> eff_priority tostr a)
     \<and> (\<forall>b\<in>set accounts. eff_priority tostr b = eff_priority tostr a
            \<longrightarrow> lastUsed a \<le> lastUsed b)
     \<and> (\<forall>b\<in>set accounts.
           eff_priority tostr b =
             (case priority b of
                JNum x \<Rightarrow> if x = 0 then 50 else \<lfloor>x\<rfloor>
              | _ \<Rightarrow> 50)
         \<and> lastUsed b = (case lastUsedAt b of None \<Rightarrow> 0 | Some t \<Rightarrow> t))"
proof -
  have e: "\<forall>b\<in>set accounts.
           eff_priority tostr b =
             (case priority b of JNum x \<Rightarrow> if x = 0 then 50 else \<lfloor>x\<rfloor> | _ \<Rightarrow> 50)
         \<and> lastUsed b = (case lastUsedAt b of None \<Rightarrow> 0 | Some t \<Rightarrow> t)"
  proof
    fix b assume "b \<in> set accounts"
    then have i: "integer_priority b" using assms(2) by blast
    have "eff_priority tostr b =
             (case priority b of JNum x \<Rightarrow> if x = 0 then 50 else \<lfloor>x\<rfloor> | _ \<Rightarrow> 50)"
    proof (cases "priority b")
      case (JNum x)
      then have x: "of_int \<lfloor>x\<rfloor> = x" "\<bar>x\<bar> < 2 ^ 53"
        using i by (simp_all add: integer_priority_def)
      have z: "(\<lfloor>x\<rfloor> = 0) = (x = 0)"
        using x(1) by (metis floor_zero of_int_0)
      show ?thesis by (simp add: JNum eff_priority_def parseInt_integer[OF x] z)
    qed (use i in \<open>simp_all add: integer_priority_def eff_priority_def parseInt_missing\<close>)
    then show "eff_priority tostr b =
             (case priority b of JNum x \<Rightarrow> if x = 0 then 50 else \<lfloor>x\<rfloor> | _ \<Rightarrow> 50)
         \<and> lastUsed b = (case lastUsedAt b of None \<Rightarrow> 0 | Some t \<Rightarrow> t)"
      by (simp add: lastUsed_def)
  qed
  from selectFromSameGroup_integer[OF assms, of tostr] e show ?thesis by blast
qed

text \<open>Four accounts: A at priority 50, B and C at 80, D without a priority (50). B and C
  are tied at the maximum; C has never been used, which counts as 0, and is selected.\<close>

theorem selectFromSameGroup_priority_then_lru_witness:
  "selectFromSameGroup (\<lambda>v. [])
     [\<lparr>acc_id = ''A'', priority = JNum 50, lastUsedAt = Some 2000, usagePercentage = Some 0.1\<rparr>,
      \<lparr>acc_id = ''B'', priority = JNum 80, lastUsedAt = Some 3000, usagePercentage = Some 0.1\<rparr>,
      \<lparr>acc_id = ''C'', priority = JNum 80, lastUsedAt = None, usagePercentage = Some 0.1\<rparr>,
      \<lparr>acc_id = ''D'', priority = JUndefined, lastUsedAt = Some 1000, usagePercentage = Some 0.1\<rparr>]
   = Inr (Some \<lparr>acc_id = ''C'', priority = JNum 80, lastUsedAt = None,
                usagePercentage = Some 0.1\<rparr>)"
proof -
  let ?A = "\<lparr>acc_id = ''A'', priority = JNum 50, lastUsedAt = Some 2000, usagePercentage = Some (0.1::real)\<rparr>"
  let ?B = "\<lparr>acc_id = ''B'', priority = JNum 80, lastUsedAt = Some 3000, usagePercentage = Some (0.1::real)\<rparr>"
  let ?C = "\<lparr>acc_id = ''C'', priority = JNum 80, lastUsedAt = None, usagePercentage = Some (0.1::real)\<rparr>"
  let ?D = "\<lparr>acc_id = ''D'', priority = JUndefined, lastUsedAt = Some 1000, usagePercentage = Some (0.1::real)\<rparr>"
  let ?t = "\<lambda>v::jsval. []::string"
  have ne: "[?A, ?B, ?C, ?D] \<noteq> []" by simp
  have num: "\<forall>a\<in>set [?A, ?B, ?C, ?D]. integer_priority a" by (simp add: integer_priority_def)
  obtain a where a: "selectFromSameGroup ?t [?A, ?B, ?C, ?D] = Inr (Some a)"
      "a \<in> set [?A, ?B, ?C, ?D]"
      "\<forall>b\<in>set [?A, ?B, ?C, ?D]. eff_priority ?t b \<le> eff_priority ?t a"
      "\<forall>b\<in>set [?A, ?B, ?C, ?D]. eff_priority ?t b = eff_priority ?t a \<longrightarrow> lastUsed a \<le> lastUsed b"
      "\<forall>b\<in>set [?A, ?B, ?C, ?D]. eff_priority ?t b =
           (case priority b of JNum x \<Rightarrow> if x = 0 then 50 else \<lfloor>x\<rfloor> | _ \<Rightarrow> 50)
         \<and> lastUsed b = (case lastUsedAt b of None \<Rightarrow> 0 | Some t \<Rightarrow> t)"
    using selectFromSameGroup_priority_then_lru[OF ne num, of ?t] by blast
  have e: "eff_priority ?t ?A = 50" "eff_priority ?t ?B = 80" "eff_priority ?t ?C = 80"
    "eff_priority ?t ?D = 50"
    using a(5) by simp_all
  have l: "lastUsed ?A = 2000" "lastUsed ?B = 3000" "lastUsed ?C = 0" "lastUsed ?D = 1000"
    using a(5) by simp_all
  have "a = ?C" using a(2,3,4) by (auto simp: e l)
  then show ?thesis using a(1) by simp
qed

text \<open>
  The claim as written promises the maximum configured priority. Of two accounts
  configured with priorities 0 and 30 the one with priority 0 is selected, because
  \<open>parseInt(a.priority) || 50\<close> reads 0 as 50.
\<close>

theorem selectFromSameGroup_zero_priority_counterexample:
  "selectFromSameGroup (\<lambda>v. [])
     [\<lparr>acc_id = ''A'', priority = JNum 0, lastUsedAt = Some 1000, usagePercentage = Some 0.1\<rparr>,
      \<lparr>acc_id = ''B'', priority = JNum 30, lastUsedAt = Some 2000, usagePercentage = Some 0.1\<rparr>]
   = Inr (Some \<lparr>acc_id = ''A'', priority = JNum 0, lastUsedAt = Some 1000,
                usagePercentage = Some 0.1\<rparr>)"
proof -
  have p: "parseInt (\<lambda>v. []) (JNum 0) = Some 0" "parseInt (\<lambda>v. []) (JNum 30) = Some 30"
    using parseInt_integer[of 0 "\<lambda>v. []"] parseInt_integer[of 30 "\<lambda>v. []"] by simp_all
  show ?thesis
    by (simp add: selectFromSameGroup_def eff_priority_def p or_js_def)
qed

text \<open>
  Outside the integers the selection is different. A fraction is parsed down to its
  integer part and then compared with the raw fraction, which it does not equal: a band
  whose accounts all have priority 50.5 yields \<open>undefined\<close>. A number from 10^21 on
  prints in exponent form, of which \<open>parseInt\<close> reads the leading digit: priority 10^21
  counts as 1 and loses to priority 50.
\<close>

lemma selectFromSameGroup_fractional_priority:
  assumes "tostr (JNum (101 / 2)) = ''50.5''"
  shows "selectFromSameGroup tostr
     [\<lparr>acc_id = ''A'', priority = JNum (101 / 2), lastUsedAt = Some 1000, usagePercentage = Some 0.1\<rparr>,
      \<lparr>acc_id = ''B'', priority = JNum (101 / 2), lastUsedAt = Some 2000, usagePercentage = Some 0.1\<rparr>]
   = Inr None"
proof -
  have f: "\<lfloor>101 / 2 :: real\<rfloor> = 50" by simp
  have p: "parseInt tostr (JNum (101 / 2)) = Some 50"
    by (simp add: parseInt_def Number_toString_def f assms parseInt_str_def is_space_def
        parse_magnitude_def dec_digit_def upt_rec)
  show ?thesis
    by (simp add: selectFromSameGroup_def eff_priority_def p or_js_def)
qed

lemma selectFromSameGroup_large_priority:
  assumes "tostr (JNum (10 ^ 21)) = ''1e+21''"
  shows "selectFromSameGroup tostr
     [\<lparr>acc_id = ''A'', priority = JNum (10 ^ 21), lastUsedAt = Some 1000, usagePercentage = Some 0.1\<rparr>,
      \<lparr>acc_id = ''B'', priority = JNum 50, lastUsedAt = Some 2000, usagePercentage = Some 0.1\<rparr>]
   = Inr (Some \<lparr>acc_id = ''B'', priority = JNum 50, lastUsedAt = Some 2000,
                usagePercentage = Some 0.1\<rparr>)"
proof -
  have a: "tostr (JNum 1000000000000000000000) = ''1e+21''"
    using assms by simp
  have p: "parseInt tostr (JNum 1000000000000000000000) = Some 1"
    by (simp add: parseInt_def Number_toString_def a parseInt_str_def is_space_def
        parse_magnitude_def dec_digit_def upt_rec)
  have q: "parseInt tostr (JNum 50) = Some 50"
    using parseInt_integer[of 50 tostr] by simp
  show ?thesis
    by (simp add: selectFromSameGroup_def eff_priority_def p q or_js_def)
qed

subsection \<open>Distributed lock\<close>

text \<open>
  Claim C4. \<open>releaseLock\<close> and \<open>extendLock\<close> return true only when the value stored
  under the lock's key (and not expired) equals the lock's fencing token, and then the key
  is deleted, respectively stored with a new expiry; when the stored value differs or the
  key is absent they return false and leave the store as it was.
\<close>

theorem release_extend_fenced:
  "(fst (releaseLock svc r now (Some lk)) \<longrightarrow>
        redis_get r now (lock_key lk) = Some (lock_value lk)
      \<and> kv (snd (snd (releaseLock svc r now (Some lk)))) (lock_key lk) = None)
 \<and> (redis_get r now (lock_key lk) \<noteq> Some (lock_value lk) \<longrightarrow>
        \<not> fst (releaseLock svc r now (Some lk))
      \<and> snd (snd (releaseLock svc r now (Some lk))) = r)
 \<and> (fst (extendLock r now (Some lk) ttl) \<longrightarrow>
        redis_get r now (lock_key lk) = Some (lock_value lk)
      \<and> (\<exists>newTTL > 0. kv (snd (snd (extendLock r now (Some lk) ttl))) (lock_key lk)
                         = Some (lock_value lk, now + newTTL)))
 \<and> (redis_get r now (lock_key lk) \<noteq> Some (lock_value lk) \<longrightarrow>
        \<not> fst (extendLock r now (Some lk) ttl)
      \<and> snd (snd (extendLock r now (Some lk) ttl)) = r)"
  by (auto simp: releaseLock_def extendLock_def eval_release_def eval_extend_def Let_def
      defaultTTL_def split: option.splits)


theorem release_extend_fenced_witness:
  "fst (releaseLock \<lparr>activeLocks = Map.empty\<rparr>
         \<lparr>kv = [''lock:job'' \<mapsto> (''tok-a'', 5000)], reachable = True\<rparr> 4500
         (Some \<lparr>resource = ''job'', lock_key = ''lock:job'', lock_value = ''tok-a'',
                lock_ttl = 1000, acquiredAt = 4000, expiresAt = 5000\<rparr>))
 \<and> kv (snd (snd (releaseLock \<lparr>activeLocks = Map.empty\<rparr>
         \<lparr>kv = [''lock:job'' \<mapsto> (''tok-a'', 5000)], reachable = True\<rparr> 4500
         (Some \<lparr>resource = ''job'', lock_key = ''lock:job'', lock_value = ''tok-a'',
                lock_ttl = 1000, acquiredAt = 4000, expiresAt = 5000\<rparr>)))) ''lock:job'' = None
 \<and> snd (snd (releaseLock \<lparr>activeLocks = Map.empty\<rparr>
         \<lparr>kv = [''lock:job'' \<mapsto> (''tok-a'', 5000)], reachable = True\<rparr> 4500
         (Some \<lparr>resource = ''job'', lock_key = ''lock:job'', lock_value = ''tok-old'',
                lock_ttl = 1000, acquiredAt = 1000, expiresAt = 2000\<rparr>)))
     = \<lparr>kv = [''lock:job'' \<mapsto> (''tok-a'', 5000)], reachable = True\<rparr>
 \<and> snd (snd (extendLock
         \<lparr>kv = [''lock:job'' \<mapsto> (''tok-a'', 5000)], reachable = True\<rparr> 4500
         (Some \<lparr>resource = ''job'', lock_key = ''lock:job'', lock_value = ''tok-old'',
                lock_ttl = 1000, acquiredAt = 1000, expiresAt = 2000\<rparr>) None))
     = \<lparr>kv = [''lock:job'' \<mapsto> (''tok-a'', 5000)], reachable = True\<rparr>"
proof -
  let ?r = "\<lparr>kv = [''lock:job'' \<mapsto> (''tok-a'', 5000::nat)], reachable = True\<rparr>"
  let ?own = "\<lparr>resource = ''job'', lock_key = ''lock:job'', lock_value = ''tok-a'',
                lock_ttl = 1000, acquiredAt = 4000, expiresAt = 5000\<rparr>"
  let ?stale = "\<lparr>resource = ''job'', lock_key = ''lock:job'', lock_value = ''tok-old'',
                lock_ttl = 1000, acquiredAt = 1000, expiresAt = 2000\<rparr>"
  have t: "fst (releaseLock \<lparr>activeLocks = Map.empty\<rparr> ?r 4500 (Some ?own))"
    by (simp add: releaseLock_def eval_release_def redis_get_def)
  have g: "redis_get ?r 4500 (lock_key ?stale) \<noteq> Some (lock_value ?stale)"
    by (simp add: redis_get_def)
  show ?thesis
    using t g release_extend_fenced[of "\<lparr>activeLocks = Map.empty\<rparr>" ?r 4500 ?own None]
      release_extend_fenced[of "\<lparr>activeLocks = Map.empty\<rparr>" ?r 4500 ?stale None]
    by simp
qed
















text \<open>A caller alone with a store whose key is held: with two retries it is refused three
  times, at 0, after a sleep of 50 ms and after a sleep of 100 ms, and returns
  \<open>null\<close>.\<close>

lemma acquire_run_pending:
  "a_outcome (fst s) = Pending \<Longrightarrow> acquire_run p s = acquire_run p (acquire_attempt p (a_wake (fst s)) s)"
  by (subst acquire_run.simps) simp

lemma acquire_run_done: "a_outcome (fst s) \<noteq> Pending \<Longrightarrow> acquire_run p s = s"
  by (subst acquire_run.simps) simp

lemma acquireLock_held_returns_null:
  "a_outcome (fst (acquireLock \<lparr>activeLocks = Map.empty\<rparr>
        \<lparr>kv = [''lock:job'' \<mapsto> (''tok-a'', 30000)], reachable = True\<rparr> 0 ''job''
        \<lparr>opt_ttl = None, opt_retries = Some 2, opt_retryDelay = None, opt_value = None\<rparr>
        ''bbbb'')) = ReturnedNull
 \<and> a_sent (fst (acquireLock \<lparr>activeLocks = Map.empty\<rparr>
        \<lparr>kv = [''lock:job'' \<mapsto> (''tok-a'', 30000)], reachable = True\<rparr> 0 ''job''
        \<lparr>opt_ttl = None, opt_retries = Some 2, opt_retryDelay = None, opt_value = None\<rparr>
        ''bbbb''))
   = [\<lparr>c_time = 0, c_key = ''lock:job'', c_value = ''bbbb'', c_ttl = 30000, c_reply = ReplyNull\<rparr>,
      \<lparr>c_time = 50, c_key = ''lock:job'', c_value = ''bbbb'', c_ttl = 30000, c_reply = ReplyNull\<rparr>,
      \<lparr>c_time = 150, c_key = ''lock:job'', c_value = ''bbbb'', c_ttl = 30000, c_reply = ReplyNull\<rparr>]"
  by (simp add: acquireLock_def acquire_params_of_def defaultTTL_def defaultRetryDelay_def
      acquire_run_pending acquire_run_done acquire_attempt_def client_set_def
      redis_set_px_nx_def redis_get_def key_of_def lockPrefix_def)

subsection \<open>Health classifier\<close>

lemma normalizeEndpointType_idem:
  "normalizeEndpointType (Some (normalizeEndpointType x)) = normalizeEndpointType x"
  by (simp add: normalizeEndpointType_def present_def Let_def toLowerCase_def toLowerCase_char_def)

lemma ctx_normalizedEndpoint_norm:
  "normalizeEndpointType (Some (ctx_normalizedEndpoint ctx)) = ctx_normalizedEndpoint ctx"
  by (simp add: ctx_normalizedEndpoint_def normalizeEndpointType_idem)

lemma extractAccountId_nonempty: "extractAccountId acc = Some aid \<Longrightarrow> aid \<noteq> []"
  by (auto simp: extractAccountId_def split: option.splits if_splits)

lemma sticky_keys_differ: "accountStickyKey ep sh ck \<noteq> apiKeyStickyKey aid ne sh'"
  by (simp add: accountStickyKey_def apiKeyStickyKey_def API_KEY_STICKY_PREFIX_def)

lemma clearAccountStickyMapping_facts:
  assumes "sh \<noteq> []"
  shows "w_accounts (clearAccountStickyMapping no_faults w ep (Some sh) ck) = w_accounts w"
    and "w_sessions (clearAccountStickyMapping no_faults w ep (Some sh) ck)
           = (w_sessions w)(accountStickyKey ep sh ck := None)"
  using assms
  by (simp_all add: clearAccountStickyMapping_def present_def no_faults_def
      deleteSessionAccountMapping_def)

lemma clearApiKeyStickyMapping_facts:
  assumes "sh \<noteq> []" "aid \<noteq> []"
  shows "w_accounts (clearApiKeyStickyMapping no_faults w aid (Some ne) (Some sh)) = w_accounts w"
    and "w_sessions (clearApiKeyStickyMapping no_faults w aid (Some ne) (Some sh))
           = (w_sessions w)(apiKeyStickyKey aid (normalizeEndpointType (Some ne)) sh := None)"
  using assms
  by (simp_all add: clearApiKeyStickyMapping_def composeApiKeyStickyKey_def present_def
      no_faults_def deleteSessionAccountMapping_def apiKeyStickyKey_def)

lemma stopDroidAccountScheduling_facts:
  assumes "aid \<noteq> []" "w_accounts w aid = Some a"
  shows "w_accounts (stopDroidAccountScheduling no_faults w aid sc reason)
           = (w_accounts w)(aid \<mapsto> a\<lparr>da_schedulable := ''false'', da_status := ''error'',
                                        da_errorMessage := Some (sc, reason)\<rparr>)"
    and "w_sessions (stopDroidAccountScheduling no_faults w aid sc reason) = w_sessions w"
  using assms
  by (simp_all add: stopDroidAccountScheduling_def no_faults_def updateAccount_def)

lemma markApiKeyAsError_facts:
  assumes "w_accounts w aid = Some a"
  shows "\<exists>a'. w_accounts (snd (markApiKeyAsError w aid kid)) aid = Some a'
           \<and> da_schedulable a' = da_schedulable a \<and> da_status a' = da_status a
           \<and> da_apiKeys a' = map (\<lambda>e. if entry_id e = kid then e\<lparr>entry_status := ''error''\<rparr> else e)
                                  (da_apiKeys a)"
    and "w_sessions (snd (markApiKeyAsError w aid kid)) = w_sessions w"
proof -
  have "map (\<lambda>e. if entry_id e = kid then e\<lparr>entry_status := ''error''\<rparr> else e) (da_apiKeys a)
          = da_apiKeys a" if "kid \<notin> entry_id ` set (da_apiKeys a)"
    using that by (intro map_idI) auto
  then show "\<exists>a'. w_accounts (snd (markApiKeyAsError w aid kid)) aid = Some a'
           \<and> da_schedulable a' = da_schedulable a \<and> da_status a' = da_status a
           \<and> da_apiKeys a' = map (\<lambda>e. if entry_id e = kid then e\<lparr>entry_status := ''error''\<rparr> else e)
                                  (da_apiKeys a)"
    using assms by (auto simp: markApiKeyAsError_def)
  show "w_sessions (snd (markApiKeyAsError w aid kid)) = w_sessions w"
    using assms by (auto simp: markApiKeyAsError_def)
qed

lemma handle_auth_token:
  assumes "statusCode = 401 \<or> statusCode = 403"
    and "extractAccountId (ctx_account ctx) = Some aid"
    and "ctx_authMethod ctx \<noteq> ''api_key''"
  shows "handleUpstreamClientError no_faults statusCode ctx w =
     clearAccountStickyMapping no_faults
       (stopDroidAccountScheduling no_faults w aid statusCode CredentialRejected)
       (Some (ctx_normalizedEndpoint ctx)) (ctx_sessionHash ctx) (ctx_clientApiKeyId ctx)"
  using assms(1)
proof
  assume "statusCode = 401"
  then show ?thesis using assms(2-) by (simp add: handleUpstreamClientError_def Let_def)
next
  assume "statusCode = 403"
  then show ?thesis using assms(2-) by (simp add: handleUpstreamClientError_def Let_def)
qed

lemma handle_auth_nokey:
  assumes "statusCode = 401 \<or> statusCode = 403"
    and "extractAccountId (ctx_account ctx) = Some aid"
    and "ctx_authMethod ctx = ''api_key''" and "\<not> present (ctx_selectedKeyId ctx)"
  shows "handleUpstreamClientError no_faults statusCode ctx w =
     clearAccountStickyMapping no_faults
       (stopDroidAccountScheduling no_faults w aid statusCode NoKeyAvailable)
       (Some (ctx_normalizedEndpoint ctx)) (ctx_sessionHash ctx) (ctx_clientApiKeyId ctx)"
  using assms(1)
proof
  assume "statusCode = 401"
  then show ?thesis using assms(2-) by (simp add: handleUpstreamClientError_def Let_def)
next
  assume "statusCode = 403"
  then show ?thesis using assms(2-) by (simp add: handleUpstreamClientError_def Let_def)
qed

lemma handle_auth_pool:
  assumes "statusCode = 401 \<or> statusCode = 403"
    and "extractAccountId (ctx_account ctx) = Some aid"
    and "ctx_authMethod ctx = ''api_key''" and "ctx_selectedKeyId ctx = Some kid" and "kid \<noteq> []"
    and "w2 = clearApiKeyStickyMapping no_faults (snd (markApiKeyAsError w aid kid)) aid
                (Some (ctx_normalizedEndpoint ctx)) (ctx_sessionHash ctx)"
  shows "handleUpstreamClientError no_faults statusCode ctx w =
     (if filter (\<lambda>entry. entry_status entry \<noteq> ''error'') (getDecryptedApiKeyEntries w2 aid) = []
      then clearAccountStickyMapping no_faults
             (stopDroidAccountScheduling no_faults w2 aid statusCode AllKeysInError)
             (Some (ctx_normalizedEndpoint ctx)) (ctx_sessionHash ctx) (ctx_clientApiKeyId ctx)
      else w2)"
  using assms(1)
proof
  assume "statusCode = 401"
  then show ?thesis using assms(2-)
    by (simp add: handleUpstreamClientError_def Let_def present_def no_faults_def)
next
  assume "statusCode = 403"
  then show ?thesis using assms(2-)
    by (simp add: handleUpstreamClientError_def Let_def present_def no_faults_def)
qed

lemma marked_entries:
  assumes "e' \<in> set (map (\<lambda>e. if entry_id e = kid then e\<lparr>entry_status := s\<rparr> else e) xs)"
    and "entry_id e' = kid"
  shows "entry_status e' = s"
proof -
  obtain e where e: "e \<in> set xs" "e' = (if entry_id e = kid then e\<lparr>entry_status := s\<rparr> else e)"
    using assms(1) by auto
  show ?thesis
  proof (cases "entry_id e = kid")
    case True
    then show ?thesis by (simp add: e(2))
  next
    case False
    then have "e' = e" by (simp add: e(2))
    then show ?thesis using assms(2) False by simp
  qed
qed

text \<open>
  Claim C5, as amended. On an upstream 401 or 403 for an account with an id and a session,
  when no collaborator call fails: in token mode, and in pool mode when no key was
  selected, the account is taken out of scheduling (\<open>schedulable\<close> \<open>'false'\<close>,
  \<open>status\<close> \<open>'error'\<close>) and the session's account mapping is cleared. In pool mode
  with a selected key, that key is marked \<open>error\<close> and the session's key mapping is
  cleared; if no key of the pool is left with a status other than \<open>error\<close>, the account
  is taken out of scheduling and the session's account mapping is cleared as well;
  otherwise the account keeps its \<open>schedulable\<close> flag and status, and the session's
  account mapping is kept.
\<close>

theorem handleUpstreamClientError_auth:
  assumes sc: "statusCode = 401 \<or> statusCode = 403"
    and aid: "extractAccountId (ctx_account ctx) = Some aid"
    and acc: "w_accounts w aid = Some a"
    and sh: "ctx_sessionHash ctx = Some sh" "sh \<noteq> []"
    and w': "w' = handleUpstreamClientError no_faults statusCode ctx w"
    and accKey: "accKey = accountStickyKey (Some (ctx_normalizedEndpoint ctx)) sh (ctx_clientApiKeyId ctx)"
    and keyKey: "keyKey = apiKeyStickyKey aid (ctx_normalizedEndpoint ctx) sh"
  shows
   "(ctx_authMethod ctx \<noteq> ''api_key'' \<or> \<not> present (ctx_selectedKeyId ctx) \<longrightarrow>
        stopped w' aid \<and> w_sessions w' accKey = None)
  \<and> (ctx_authMethod ctx = ''api_key'' \<and> ctx_selectedKeyId ctx = Some kid \<and> kid \<noteq> [] \<longrightarrow>
        (\<forall>e\<in>set (getDecryptedApiKeyEntries w' aid). entry_id e = kid \<longrightarrow> entry_status e = ''error'')
      \<and> w_sessions w' keyKey = None
      \<and> ((\<forall>e\<in>set (getDecryptedApiKeyEntries w' aid). entry_status e = ''error'') \<longrightarrow>
            stopped w' aid \<and> w_sessions w' accKey = None)
      \<and> ((\<exists>e\<in>set (getDecryptedApiKeyEntries w' aid). entry_status e \<noteq> ''error'') \<longrightarrow>
            w_sessions w' accKey = w_sessions w accKey
          \<and> (\<exists>a'. w_accounts w' aid = Some a' \<and> da_schedulable a' = da_schedulable a
                    \<and> da_status a' = da_status a)))"
proof (intro conjI impI)
  have ne: "aid \<noteq> []" by (rule extractAccountId_nonempty[OF aid])
  {
    assume m: "ctx_authMethod ctx \<noteq> ''api_key'' \<or> \<not> present (ctx_selectedKeyId ctx)"
    have "\<exists>reason. w' = clearAccountStickyMapping no_faults
       (stopDroidAccountScheduling no_faults w aid statusCode reason)
       (Some (ctx_normalizedEndpoint ctx)) (Some sh) (ctx_clientApiKeyId ctx)"
    proof (cases "ctx_authMethod ctx \<noteq> ''api_key''")
      case True
      then show ?thesis using handle_auth_token[OF sc aid] w' sh by auto
    next
      case False
      then show ?thesis using handle_auth_nokey[OF sc aid] m w' sh by auto
    qed
    then obtain reason where r: "w' = clearAccountStickyMapping no_faults
       (stopDroidAccountScheduling no_faults w aid statusCode reason)
       (Some (ctx_normalizedEndpoint ctx)) (Some sh) (ctx_clientApiKeyId ctx)" by blast
    show "stopped w' aid"
      by (simp add: r stopped_def clearAccountStickyMapping_facts[OF sh(2)]
          stopDroidAccountScheduling_facts[OF ne acc])
    show "w_sessions w' accKey = None"
      by (simp add: r accKey clearAccountStickyMapping_facts[OF sh(2)])
  }
  {
    assume p: "ctx_authMethod ctx = ''api_key'' \<and> ctx_selectedKeyId ctx = Some kid \<and> kid \<noteq> []"
    define w1 where "w1 = snd (markApiKeyAsError w aid kid)"
    define w2 where "w2 = clearApiKeyStickyMapping no_faults w1 aid
                (Some (ctx_normalizedEndpoint ctx)) (Some sh)"
    obtain a1 where a1: "w_accounts w1 aid = Some a1" "da_schedulable a1 = da_schedulable a"
        "da_status a1 = da_status a"
        "da_apiKeys a1 = map (\<lambda>e. if entry_id e = kid then e\<lparr>entry_status := ''error''\<rparr> else e)
                                  (da_apiKeys a)"
      using markApiKeyAsError_facts(1)[OF acc, of kid] unfolding w1_def by blast
    have s1: "w_sessions w1 = w_sessions w"
      using markApiKeyAsError_facts(2)[OF acc, of kid] unfolding w1_def .
    have a2: "w_accounts w2 = w_accounts w1"
      and s2: "w_sessions w2 = (w_sessions w1)(keyKey := None)"
      unfolding w2_def keyKey
      using clearApiKeyStickyMapping_facts[OF sh(2) ne, of w1 "ctx_normalizedEndpoint ctx"]
      by (simp_all add: ctx_normalizedEndpoint_norm)
    have e2: "getDecryptedApiKeyEntries w2 aid = da_apiKeys a1"
      by (simp add: getDecryptedApiKeyEntries_def a2 a1)
    have w'eq: "w' =
     (if filter (\<lambda>entry. entry_status entry \<noteq> ''error'') (da_apiKeys a1) = []
      then clearAccountStickyMapping no_faults
             (stopDroidAccountScheduling no_faults w2 aid statusCode AllKeysInError)
             (Some (ctx_normalizedEndpoint ctx)) (Some sh) (ctx_clientApiKeyId ctx)
      else w2)"
      using handle_auth_pool[OF sc aid, of kid w2 w] p w' sh
      by (simp add: w2_def w1_def e2[unfolded w2_def w1_def])
    have acc2: "w_accounts w2 aid = Some a1" by (simp add: a2 a1)
    have diff: "accKey \<noteq> keyKey" unfolding accKey keyKey by (rule sticky_keys_differ)
    have e': "getDecryptedApiKeyEntries w' aid = da_apiKeys a1"
      by (simp add: w'eq getDecryptedApiKeyEntries_def clearAccountStickyMapping_facts[OF sh(2)]
          stopDroidAccountScheduling_facts[OF ne acc2] acc2)
    show "\<forall>e\<in>set (getDecryptedApiKeyEntries w' aid). entry_id e = kid \<longrightarrow> entry_status e = ''error''"
      unfolding e' a1(4) using marked_entries by blast
    show "w_sessions w' keyKey = None"
      using diff
      by (simp add: w'eq clearAccountStickyMapping_facts[OF sh(2)]
          stopDroidAccountScheduling_facts[OF ne acc2] s2 accKey[symmetric])
    {
      assume all: "\<forall>e\<in>set (getDecryptedApiKeyEntries w' aid). entry_status e = ''error''"
      then have f: "filter (\<lambda>entry. entry_status entry \<noteq> ''error'') (da_apiKeys a1) = []"
        unfolding e' by (simp add: filter_empty_conv)
      show "stopped w' aid"
        by (simp add: w'eq f stopped_def clearAccountStickyMapping_facts[OF sh(2)]
            stopDroidAccountScheduling_facts[OF ne acc2])
      show "w_sessions w' accKey = None"
        by (simp add: w'eq f accKey clearAccountStickyMapping_facts[OF sh(2)])
    }
    {
      assume ex: "\<exists>e\<in>set (getDecryptedApiKeyEntries w' aid). entry_status e \<noteq> ''error''"
      then have f: "filter (\<lambda>entry. entry_status entry \<noteq> ''error'') (da_apiKeys a1) \<noteq> []"
        unfolding e' by (simp add: filter_empty_conv)
      have w2eq: "w' = w2" using w'eq f by simp
      show "w_sessions w' accKey = w_sessions w accKey"
        using diff by (simp add: w2eq s2 s1)
      show "\<exists>a'. w_accounts w' aid = Some a' \<and> da_schedulable a' = da_schedulable a
                    \<and> da_status a' = da_status a"
        using acc2 a1 by (simp add: w2eq)
    }
  }
qed

lemmas relay_eval = handleUpstreamClientError_def extractAccountId_def ctx_normalizedEndpoint_def
  ctx_authMethod_def normalizeEndpointType_def present_def js_trim_def is_space_def
  toLowerCase_def toLowerCase_char_def markApiKeyAsError_def getDecryptedApiKeyEntries_def
  updateAccount_def deleteSessionAccountMapping_def composeApiKeyStickyKey_def
  accountStickyKey_def apiKeyStickyKey_def API_KEY_STICKY_PREFIX_def
  stopDroidAccountScheduling_def clearAccountStickyMapping_def clearApiKeyStickyMapping_def
  no_faults_def stopped_def Let_def

theorem handleUpstreamClientError_auth_witness:
  "stopped (handleUpstreamClientError no_faults 401 scenario_ctx (scenario_world ''error'' ''error''))
      ''acc-1''
 \<and> map entry_status (getDecryptedApiKeyEntries
       (handleUpstreamClientError no_faults 401 scenario_ctx (scenario_world ''error'' ''error''))
       ''acc-1'') = [''error'', ''error'', ''error'']
 \<and> w_sessions (handleUpstreamClientError no_faults 401 scenario_ctx
       (scenario_world ''error'' ''error'')) ''droid:anthropic:client-1:sess-1'' = None
 \<and> w_sessions (handleUpstreamClientError no_faults 401 scenario_ctx
       (scenario_world ''error'' ''error'')) ''droid_api_key:acc-1:anthropic:sess-1'' = None"
proof -
  let ?w = "scenario_world ''error'' ''error''"
  let ?w' = "handleUpstreamClientError no_faults 401 scenario_ctx ?w"
  let ?a = "\<lparr>da_schedulable = ''true'', da_status = ''active'', da_errorMessage = None,
          da_apiKeys = [\<lparr>entry_id = ''k1'', entry_status = ''error''\<rparr>,
                        \<lparr>entry_id = ''k2'', entry_status = ''error''\<rparr>,
                        \<lparr>entry_id = ''k3'', entry_status = ''active''\<rparr>]\<rparr>"
  have h1: "(401::nat) = 401 \<or> (401::nat) = 403" by simp
  have h2: "extractAccountId (ctx_account scenario_ctx) = Some ''acc-1''"
    by (simp add: scenario_ctx_def extractAccountId_def)
  have h3: "w_accounts ?w ''acc-1'' = Some ?a" by (simp add: scenario_world_def)
  have h4: "ctx_sessionHash scenario_ctx = Some ''sess-1''" "''sess-1'' \<noteq> []"
    by (simp_all add: scenario_ctx_def)
  have k1: "''droid:anthropic:client-1:sess-1'' =
      accountStickyKey (Some (ctx_normalizedEndpoint scenario_ctx)) ''sess-1''
        (ctx_clientApiKeyId scenario_ctx)"
    by (simp add: relay_eval scenario_ctx_def)
  have k2: "''droid_api_key:acc-1:anthropic:sess-1'' =
      apiKeyStickyKey ''acc-1'' (ctx_normalizedEndpoint scenario_ctx) ''sess-1''"
    by (simp add: relay_eval scenario_ctx_def)
  have m: "ctx_authMethod scenario_ctx = ''api_key'' \<and> ctx_selectedKeyId scenario_ctx = Some ''k3''
      \<and> ''k3'' \<noteq> []"
    by (simp add: relay_eval scenario_ctx_def)
  have ev: "map entry_status (getDecryptedApiKeyEntries ?w' ''acc-1'')
     = [''error'', ''error'', ''error'']"
    by (simp add: relay_eval scenario_ctx_def scenario_world_def)
  have all: "\<forall>e\<in>set (getDecryptedApiKeyEntries ?w' ''acc-1''). entry_status e = ''error''"
  proof
    fix e assume "e \<in> set (getDecryptedApiKeyEntries ?w' ''acc-1'')"
    then have "entry_status e \<in> set (map entry_status (getDecryptedApiKeyEntries ?w' ''acc-1''))"
      by simp
    then show "entry_status e = ''error''" unfolding ev by simp
  qed
  note t = handleUpstreamClientError_auth[OF h1 h2 h3 h4 refl k1 k2, of "''k3''"]
  have p: "w_sessions ?w' ''droid_api_key:acc-1:anthropic:sess-1'' = None
      \<and> ((\<forall>e\<in>set (getDecryptedApiKeyEntries ?w' ''acc-1''). entry_status e = ''error'') \<longrightarrow>
            stopped ?w' ''acc-1'' \<and> w_sessions ?w' ''droid:anthropic:client-1:sess-1'' = None)"
    using t m by simp
  show ?thesis using p all ev by simp
qed

text \<open>
  The claim as written fails in two places. In its own scenario (three keys, two already
  in error) the account's status becomes \<open>error\<close>, not \<open>disabled\<close>. And when the
  other two keys are still active, the session's account mapping is not cleared.
\<close>

theorem handleUpstreamClientError_auth_counterexample:
  "(case w_accounts (handleUpstreamClientError no_faults 401 scenario_ctx
        (scenario_world ''error'' ''error'')) ''acc-1'' of
      None \<Rightarrow> [] | Some a \<Rightarrow> da_status a) = ''error''
 \<and> w_sessions (handleUpstreamClientError no_faults 401 scenario_ctx
        (scenario_world ''active'' ''active'')) ''droid:anthropic:client-1:sess-1'' = Some ''acc-1''"
  by (simp add: relay_eval scenario_ctx_def scenario_world_def)

subsection \<open>Streaming usage\<close>

text \<open>A prefix of a text has the lines of the text up to its last one, which is a
  prefix of the line at that place.\<close>

lemma split_nl_nonempty: "split_nl s \<noteq> []"
  by (induction s) (auto split: list.splits)

lemma split_nl_prefix:
  assumes "prefix P T"
  shows "\<exists>ls l' l0 rest. split_nl P = ls @ [l'] \<and> split_nl T = ls @ l0 # rest \<and> prefix l' l0"
  using assms
proof (induction P arbitrary: T)
  case Nil
  obtain l0 rest where "split_nl T = l0 # rest"
    using split_nl_nonempty[of T] by (cases "split_nl T") auto
  then have "split_nl [] = [] @ [[]] \<and> split_nl T = [] @ l0 # rest \<and> prefix [] l0"
    by simp
  then show ?case by blast
next
  case (Cons c P')
  then obtain T' where T: "T = c # T'" and p: "prefix P' T'"
    by (cases T) auto
  from Cons.IH[OF p] obtain ls l' l0 rest where
    ih: "split_nl P' = ls @ [l']" "split_nl T' = ls @ l0 # rest" "prefix l' l0" by blast
  show ?case
  proof (cases "c = CHR 0x0A")
    case True
    have "split_nl (c # P') = ([] # ls) @ [l']" "split_nl T = ([] # ls) @ l0 # rest"
      using True ih T by simp_all
    then show ?thesis using ih(3) by blast
  next
    case False
    show ?thesis
    proof (cases ls)
      case Nil
      have "split_nl (c # P') = [] @ [c # l']" "split_nl T = [] @ (c # l0) # rest"
        using False ih T Nil by simp_all
      moreover have "prefix (c # l') (c # l0)" using ih(3) by simp
      ultimately show ?thesis by blast
    next
      case (Cons h ls2)
      have "split_nl (c # P') = ((c # h) # ls2) @ [l']"
        "split_nl T = ((c # h) # ls2) @ l0 # rest"
        using False ih T Cons by simp_all
      then show ?thesis using ih(3) by blast
    qed
  qed
qed

lemma upd_seq_prefix_subset:
  assumes pre: "prefix P T"
    and inert: "\<forall>l\<in>set (split_nl T). \<forall>l'. strict_prefix l' l \<longrightarrow> f l' = []"
  shows "set (upd_seq f P) \<subseteq> set (upd_seq f T)"
proof -
  obtain ls l' l0 rest where
    sp: "split_nl P = ls @ [l']" "split_nl T = ls @ l0 # rest" "prefix l' l0"
    using split_nl_prefix[OF pre] by blast
  have l0: "l0 \<in> set (split_nl T)" by (simp add: sp(2))
  have last: "set (f l') \<subseteq> set (f l0)"
  proof (cases "l' = l0")
    case True
    then show ?thesis by simp
  next
    case False
    then have "strict_prefix l' l0" using sp(3) by (simp add: strict_prefix_def)
    then have "f l' = []" using inert l0 by blast
    then show ?thesis by simp
  qed
  show ?thesis using last by (auto simp: upd_seq_def sp)
qed

lemma map_of_assign: "map_of (assign obj b) = (map_of obj)(fst b \<mapsto> snd b)"
  by (rule ext) (simp add: assign_def AList.update_conv)

lemma map_of_foldl_assign: "map_of (foldl assign obj us) = map_of obj ++ map_of (rev us)"
proof (induction us arbitrary: obj)
  case Nil
  then show ?case by simp
next
  case (Cons u us)
  have "map_of (foldl assign (assign obj u) us) = map_of (assign obj u) ++ map_of (rev us)"
    by (rule Cons.IH)
  also have "\<dots> = map_of obj ++ (map_of (rev us @ [u]))"
    by (cases u) (simp add: map_of_assign map_add_def fun_eq_iff split: option.splits)
  finally show ?case by simp
qed

lemma keys_foldl_assign: "fst ` set (foldl assign obj us) = fst ` set obj \<union> fst ` set us"
proof -
  have "dom (map_of (foldl assign obj us)) = dom (map_of obj) \<union> dom (map_of (rev us))"
    by (simp add: map_of_foldl_assign Un_commute)
  then show ?thesis by (simp add: dom_map_of_conv_image_fst)
qed

lemma map_of_foldl_assign_absorb:
  assumes "fst ` set obj \<subseteq> fst ` set us"
  shows "map_of (foldl assign obj us) = map_of (rev us)"
proof -
  have "dom (map_of obj) \<subseteq> dom (map_of (rev us))"
    using assms by (simp add: dom_map_of_conv_image_fst)
  then have "map_of obj ++ map_of (rev us) = map_of (rev us)"
    by (auto simp: map_add_def fun_eq_iff split: option.splits)
  then show ?thesis by (simp add: map_of_foldl_assign)
qed

text \<open>
  The handler reads the whole buffer again at each chunk. When no proper prefix of a
  line of the stream makes an assignment (a cut line is not a complete event), every
  pass assigns only what the last pass assigns again, so the properties at the end
  are those of one pass over the whole stream, whatever the chunks.
\<close>

lemma foldl_lines:
  "foldl (\<lambda>cur l. foldl assign cur (f l)) cur ls = foldl assign cur (concat (map f ls))"
  by (induction ls arbitrary: cur) simp_all

lemma on_data_upd_seq:
  "on_data parse e (buf, cur) c =
     (buf @ c, foldl assign cur (upd_seq (line_updates parse e) (buf @ c)))"
proof -
  have a: "parseAnthropicUsageFromSSE parse c buf cur =
      foldl assign cur (upd_seq (anthropic_line parse) (buf @ c))"
    by (simp add: parseAnthropicUsageFromSSE_def upd_seq_def foldl_lines)
  have b: "parseOpenAIUsageFromSSE parse c buf cur =
      foldl assign cur (upd_seq (openai_line parse) (buf @ c))"
    by (simp add: parseOpenAIUsageFromSSE_def upd_seq_def foldl_lines)
  have l: "line_updates parse e =
      (if e = ''anthropic'' then anthropic_line parse
       else if e = ''openai'' then openai_line parse else (\<lambda>l. []))"
    by (rule ext) (simp add: line_updates_def)
  have n: "upd_seq (\<lambda>l. []) (buf @ c) = []"
    by (simp add: upd_seq_def)
  show ?thesis
    unfolding on_data_def l using a b n by simp
qed

lemma stream_buffer:
  "fst (foldl (on_data parse e) (buf, cur) chunks) = buf @ concat chunks"
  by (induction chunks arbitrary: buf cur) (simp_all add: on_data_upd_seq)

lemma stream_keys:
  assumes inert: "\<forall>l\<in>set (split_nl T). \<forall>l'. strict_prefix l' l \<longrightarrow> line_updates parse e l' = []"
  shows "prefix (buf @ concat chunks) T \<Longrightarrow>
     fst ` set cur \<subseteq> fst ` set (upd_seq (line_updates parse e) T) \<Longrightarrow>
     fst ` set (snd (foldl (on_data parse e) (buf, cur) chunks))
       \<subseteq> fst ` set (upd_seq (line_updates parse e) T)"
proof (induction chunks arbitrary: buf cur)
  case Nil
  then show ?case by simp
next
  case (Cons c cs)
  have pre: "prefix (buf @ c) T"
    using Cons.prems(1) by (metis append.assoc concat.simps(2) prefix_def)
  have sub: "set (upd_seq (line_updates parse e) (buf @ c))
      \<subseteq> set (upd_seq (line_updates parse e) T)"
    by (rule upd_seq_prefix_subset[OF pre inert])
  have keys: "fst ` set (foldl assign cur (upd_seq (line_updates parse e) (buf @ c)))
      \<subseteq> fst ` set (upd_seq (line_updates parse e) T)"
    unfolding keys_foldl_assign using Cons.prems(2) sub by blast
  have pre2: "prefix ((buf @ c) @ concat cs) T"
    using Cons.prems(1) by simp
  show ?case
    using Cons.IH[OF pre2 keys] by (simp add: on_data_upd_seq)
qed

lemma stream_usage_one_shot:
  "map_of (stream_usage parse e [T]) = map_of (rev (upd_seq (line_updates parse e) T))"
  by (simp add: stream_usage_def on_data_upd_seq map_of_foldl_assign)

lemma stream_usage_chunks:
  assumes inert: "\<forall>l\<in>set (split_nl (concat chunks)).
            \<forall>l'. strict_prefix l' l \<longrightarrow> line_updates parse e l' = []"
    and ne: "chunks \<noteq> []"
  shows "map_of (stream_usage parse e chunks)
       = map_of (rev (upd_seq (line_updates parse e) (concat chunks)))"
proof -
  obtain cs c where ch: "chunks = cs @ [c]"
    using ne by (metis rev_exhaust)
  define s where "s = foldl (on_data parse e) ([], []) cs"
  have buf: "fst s = concat cs"
    unfolding s_def using stream_buffer[of parse e "[]" "[]" cs] by simp
  have "prefix ([] @ concat cs) (concat chunks)"
    by (simp add: ch)
  then have keys: "fst ` set (snd s) \<subseteq> fst ` set (upd_seq (line_updates parse e) (concat chunks))"
    unfolding s_def by (rule stream_keys[OF inert]) simp
  have T: "fst s @ c = concat chunks"
    by (simp add: buf ch)
  have "stream_usage parse e chunks = snd (on_data parse e (fst s, snd s) c)"
    by (simp add: stream_usage_def ch s_def)
  also have "\<dots> = foldl assign (snd s) (upd_seq (line_updates parse e) (concat chunks))"
    unfolding on_data_upd_seq T by simp
  finally show ?thesis
    by (simp add: map_of_foldl_assign_absorb[OF keys])
qed

lemma stream_usage_nil:
  "stream_usage parse e [] = [] \<and> stream_usage parse e [concat []] = []"
  by (simp add: stream_usage_def on_data_upd_seq upd_seq_def line_updates_def
      anthropic_line_def openai_line_def data_payload_def)

lemma stream_chunk_independent:
  assumes inert: "\<forall>l\<in>set (split_nl (concat chunks)).
            \<forall>l'. strict_prefix l' l \<longrightarrow> line_updates parse e l' = []"
  shows "map_of (stream_usage parse e chunks) = map_of (stream_usage parse e [concat chunks])"
proof (cases "chunks = []")
  case True
  then show ?thesis using stream_usage_nil[of parse e] by simp
next
  case False
  show ?thesis
    by (simp add: stream_usage_chunks[OF inert False] stream_usage_one_shot)
qed

lemma getp_map_of: "map_of x = map_of y \<Longrightarrow> getp (JObj x) k = getp (JObj y) k"
  by simp


lemma normalizeUsageSnapshot_numbers:
  assumes "toNumber s (raw_input (JObj x)) = toNumber s (raw_input (JObj y))"
    and "toNumber s (raw_output (JObj x)) = toNumber s (raw_output (JObj y))"
    and "toNumber s (raw_cache_read (JObj x)) = toNumber s (raw_cache_read (JObj y))"
    and "toNumber s (rawCacheCreateTokens (JObj x)) = toNumber s (rawCacheCreateTokens (JObj y))"
    and "toNumber s (raw_ephemeral5m (JObj x)) = toNumber s (raw_ephemeral5m (JObj y))"
    and "toNumber s (raw_ephemeral1h (JObj x)) = toNumber s (raw_ephemeral1h (JObj y))"
  shows "normalizeUsageSnapshot s (JObj x) = normalizeUsageSnapshot s (JObj y)"
  unfolding normalizeUsageSnapshot_def Let_def
  by (simp only: jsval.simps if_False assms)

lemma normalizeUsageSnapshot_cong:
  assumes "map_of x = map_of y"
  shows "normalizeUsageSnapshot s (JObj x) = normalizeUsageSnapshot s (JObj y)"
proof -
  have g: "\<And>k. getp (JObj x) k = getp (JObj y) k"
    using assms by simp
  show ?thesis
    by (rule normalizeUsageSnapshot_numbers)
      (simp_all only: raw_input_def raw_output_def raw_cache_read_def rawCacheCreateTokens_def
        raw_ephemeral5m_def raw_ephemeral1h_def g)
qed

text \<open>On the Anthropic path the parser keeps each count as \<open>v || 0\<close>, which the
  normaliser coerces as it coerces \<open>v\<close>: the streamed snapshot is the buffered one.\<close>

lemma toNumber_or_zero: "toNumber s (or_js v (JNum 0)) = toNumber s v"
  by (cases v) (simp_all add: toNumber_def or_js_def)

lemma coalesce_or_zero: "coalesce (or_js v (JNum 0)) w = or_js v (JNum 0)"
  by (cases v) (simp_all add: coalesce_def or_js_def nullish_def)

lemma coalesce_undefined: "coalesce JUndefined w = w"
  by (simp add: coalesce_def nullish_def)

lemma toNumber_coalesce_undefined:
  "toNumber s (coalesce v JUndefined) = toNumber s v"
  by (simp add: coalesce_def nullish_def toNumber_def)

lemma toNumber_coalesce_zero:
  "toNumber s (coalesce v (JNum 0)) = toNumber s v"
  by (auto simp: coalesce_def nullish_def toNumber_def)

lemma toNumber_undefined: "toNumber s JUndefined = 0"
  by (simp add: toNumber_def)

lemma raw_of_stream_plain:
  fixes a b d out :: jsval
  defines "acc \<equiv> JObj [(''input_tokens'', a), (''cache_creation_input_tokens'', b),
                       (''cache_read_input_tokens'', d), (''output_tokens'', out)]"
  shows "raw_input acc = coalesce a JUndefined"
    and "raw_output acc = coalesce out JUndefined"
    and "raw_cache_read acc = coalesce d JUndefined"
    and "rawCacheCreateTokens acc = coalesce b (JNum 0)"
    and "raw_ephemeral5m acc = JUndefined"
    and "raw_ephemeral1h acc = JUndefined"
  by (simp_all add: acc_def raw_input_def raw_output_def raw_cache_read_def
      rawCacheCreateTokens_def raw_ephemeral5m_def raw_ephemeral1h_def coalesce_undefined
      opt_getp_def nullish_def)

lemma raw_of_stream_detailed:
  fixes a b d out p q :: jsval
  defines "acc \<equiv> JObj [(''input_tokens'', a), (''cache_creation_input_tokens'', b),
                       (''cache_read_input_tokens'', d),
                       (''cache_creation'', JObj [(''ephemeral_5m_input_tokens'', p),
                                                  (''ephemeral_1h_input_tokens'', q)]),
                       (''output_tokens'', out)]"
  shows "raw_input acc = coalesce a JUndefined"
    and "raw_output acc = coalesce out JUndefined"
    and "raw_cache_read acc = coalesce d JUndefined"
    and "rawCacheCreateTokens acc = coalesce b (JNum 0)"
    and "raw_ephemeral5m acc = coalesce p JUndefined"
    and "raw_ephemeral1h acc = coalesce q JUndefined"
  by (simp_all add: acc_def raw_input_def raw_output_def raw_cache_read_def
      rawCacheCreateTokens_def raw_ephemeral5m_def raw_ephemeral1h_def coalesce_undefined
      opt_getp_def nullish_def)

lemma raw_of_buffered:
  shows "raw_input (buffered_usage u v) = coalesce (getp u ''input_tokens'') JUndefined"
    and "raw_output (buffered_usage u v) = coalesce (getp v ''output_tokens'') JUndefined"
    and "raw_cache_read (buffered_usage u v)
           = coalesce (getp u ''cache_read_input_tokens'') JUndefined"
    and "rawCacheCreateTokens (buffered_usage u v)
           = coalesce (getp u ''cache_creation_input_tokens'') (JNum 0)"
    and "raw_ephemeral5m (buffered_usage u v)
           = coalesce (opt_getp (getp u ''cache_creation'') ''ephemeral_5m_input_tokens'')
               JUndefined"
    and "raw_ephemeral1h (buffered_usage u v)
           = coalesce (opt_getp (getp u ''cache_creation'') ''ephemeral_1h_input_tokens'')
               JUndefined"
  by (simp_all add: buffered_usage_def raw_input_def raw_output_def raw_cache_read_def
      rawCacheCreateTokens_def raw_ephemeral5m_def raw_ephemeral1h_def coalesce_undefined
      opt_getp_def nullish_def)

lemma anthropic_stream_acc:
  "foldl assign [] (anthropic_updates (message_start (JObj us)) @
                    anthropic_updates (message_delta (JObj ud))) =
      [(''input_tokens'', or_js (getp (JObj us) ''input_tokens'') (JNum 0)),
       (''cache_creation_input_tokens'',
          or_js (getp (JObj us) ''cache_creation_input_tokens'') (JNum 0)),
       (''cache_read_input_tokens'',
          or_js (getp (JObj us) ''cache_read_input_tokens'') (JNum 0))] @
      (if truthy (getp (JObj us) ''cache_creation'')
       then [(''cache_creation'',
              JObj [(''ephemeral_5m_input_tokens'',
                       or_js (getp (getp (JObj us) ''cache_creation'')
                                ''ephemeral_5m_input_tokens'') (JNum 0)),
                    (''ephemeral_1h_input_tokens'',
                       or_js (getp (getp (JObj us) ''cache_creation'')
                                ''ephemeral_1h_input_tokens'') (JNum 0))])]
       else []) @
      [(''output_tokens'', or_js (getp (JObj ud) ''output_tokens'') (JNum 0))]"
proof -
  have s: "anthropic_updates (message_start (JObj us)) =
      [(''input_tokens'', or_js (getp (JObj us) ''input_tokens'') (JNum 0)),
       (''cache_creation_input_tokens'',
          or_js (getp (JObj us) ''cache_creation_input_tokens'') (JNum 0)),
       (''cache_read_input_tokens'',
          or_js (getp (JObj us) ''cache_read_input_tokens'') (JNum 0))] @
      (if truthy (getp (JObj us) ''cache_creation'')
       then [(''cache_creation'',
              JObj [(''ephemeral_5m_input_tokens'',
                       or_js (getp (getp (JObj us) ''cache_creation'')
                                ''ephemeral_5m_input_tokens'') (JNum 0)),
                    (''ephemeral_1h_input_tokens'',
                       or_js (getp (getp (JObj us) ''cache_creation'')
                                ''ephemeral_1h_input_tokens'') (JNum 0))])]
       else [])"
    unfolding anthropic_updates_def message_start_def Let_def
    by (simp add: nullish_def del: getp.simps) (simp add: getp.simps(1)[of _ "''type''"] getp.simps(1)[of _ "''message''"] getp.simps(1)[of _ "''usage''"])
  have d: "anthropic_updates (message_delta (JObj ud)) =
      [(''output_tokens'', or_js (getp (JObj ud) ''output_tokens'') (JNum 0))]"
    unfolding anthropic_updates_def message_delta_def
    by (simp add: nullish_def)
  show ?thesis
    unfolding s d by (simp add: assign_def del: getp.simps)
qed

lemma opt_getp_falsy:
  "\<not> truthy c \<Longrightarrow> toNumber s (opt_getp c k) = 0"
  by (cases c) (simp_all add: opt_getp_def nullish_def toNumber_def)

lemma opt_getp_truthy:
  "truthy c \<Longrightarrow> opt_getp c k = getp c k"
  by (cases c) (simp_all add: opt_getp_def nullish_def)

lemma anthropic_stream_matches_buffered:
  "normalizeUsageSnapshot s
     (JObj (foldl assign [] (anthropic_updates (message_start (JObj us)) @
                             anthropic_updates (message_delta (JObj ud)))))
   = normalizeUsageSnapshot s (buffered_usage (JObj us) (JObj ud))"
proof (cases "truthy (getp (JObj us) ''cache_creation'')")
  case True
  have acc: "foldl assign [] (anthropic_updates (message_start (JObj us)) @
                    anthropic_updates (message_delta (JObj ud))) =
      [(''input_tokens'', or_js (getp (JObj us) ''input_tokens'') (JNum 0)),
       (''cache_creation_input_tokens'',
          or_js (getp (JObj us) ''cache_creation_input_tokens'') (JNum 0)),
       (''cache_read_input_tokens'',
          or_js (getp (JObj us) ''cache_read_input_tokens'') (JNum 0)),
       (''cache_creation'',
              JObj [(''ephemeral_5m_input_tokens'',
                       or_js (getp (getp (JObj us) ''cache_creation'')
                                ''ephemeral_5m_input_tokens'') (JNum 0)),
                    (''ephemeral_1h_input_tokens'',
                       or_js (getp (getp (JObj us) ''cache_creation'')
                                ''ephemeral_1h_input_tokens'') (JNum 0))]),
       (''output_tokens'', or_js (getp (JObj ud) ''output_tokens'') (JNum 0))]"
    unfolding anthropic_stream_acc using True by (simp del: getp.simps)
  show ?thesis
    unfolding acc buffered_usage_def[symmetric]
    apply (subst buffered_usage_def)
    apply (rule normalizeUsageSnapshot_numbers)
    unfolding buffered_usage_def[symmetric] raw_of_stream_detailed raw_of_buffered
      opt_getp_truthy[OF True] toNumber_coalesce_undefined toNumber_coalesce_zero
      toNumber_or_zero
    by (rule refl)+
next
  case False
  have acc: "foldl assign [] (anthropic_updates (message_start (JObj us)) @
                    anthropic_updates (message_delta (JObj ud))) =
      [(''input_tokens'', or_js (getp (JObj us) ''input_tokens'') (JNum 0)),
       (''cache_creation_input_tokens'',
          or_js (getp (JObj us) ''cache_creation_input_tokens'') (JNum 0)),
       (''cache_read_input_tokens'',
          or_js (getp (JObj us) ''cache_read_input_tokens'') (JNum 0)),
       (''output_tokens'', or_js (getp (JObj ud) ''output_tokens'') (JNum 0))]"
    unfolding anthropic_stream_acc using False by (simp del: getp.simps)
  show ?thesis
    unfolding acc
    apply (subst buffered_usage_def)
    apply (rule normalizeUsageSnapshot_numbers)
    unfolding buffered_usage_def[symmetric] raw_of_stream_plain raw_of_buffered
      opt_getp_falsy[OF False] toNumber_coalesce_undefined toNumber_coalesce_zero
      toNumber_or_zero toNumber_undefined
    by (rule refl)+
qed

lemma stream_usage_single:
  "stream_usage parse e [T] = foldl assign [] (upd_seq (line_updates parse e) T)"
  by (simp add: stream_usage_def on_data_upd_seq)

lemma anthropic_round_trip:
  assumes inert: "\<forall>l\<in>set (split_nl (concat chunks)).
            \<forall>l'. strict_prefix l' l \<longrightarrow> line_updates parse ''anthropic'' l' = []"
    and events: "upd_seq (line_updates parse ''anthropic'') (concat chunks) =
            anthropic_updates (message_start (JObj us)) @
            anthropic_updates (message_delta (JObj ud))"
  shows "normalizeUsageSnapshot s (JObj (stream_usage parse ''anthropic'' chunks))
       = normalizeUsageSnapshot s
           (or_js (getp (JObj [(''usage'', buffered_usage (JObj us) (JObj ud))]) ''usage'')
              (JObj []))"
proof -
  have "normalizeUsageSnapshot s (JObj (stream_usage parse ''anthropic'' chunks))
      = normalizeUsageSnapshot s (JObj (stream_usage parse ''anthropic'' [concat chunks]))"
    by (rule normalizeUsageSnapshot_cong) (rule stream_chunk_independent[OF inert])
  also have "\<dots> = normalizeUsageSnapshot s (buffered_usage (JObj us) (JObj ud))"
    unfolding stream_usage_single events by (rule anthropic_stream_matches_buffered)
  finally show ?thesis
    by (simp add: or_js_def buffered_usage_def)
qed

lemma inert_by_payloads:
  assumes known: "\<And>j. parse j \<noteq> None \<Longrightarrow> j \<in> set payloads"
    and whole: "\<forall>l\<in>set (split_nl T). \<forall>j\<in>set payloads. \<not> strict_prefix (''data: '' @ j) l"
  shows "\<forall>l\<in>set (split_nl T). \<forall>l'. strict_prefix l' l \<longrightarrow> line_updates parse e l' = []"
proof (intro ballI allI impI)
  fix l l'
  assume l: "l \<in> set (split_nl T)" and sp: "strict_prefix l' l"
  show "line_updates parse e l' = []"
  proof (cases "data_payload l'")
    case None
    then show ?thesis
      by (simp add: line_updates_def anthropic_line_def openai_line_def)
  next
    case (Some j)
    then have l': "l' = ''data: '' @ j"
      by (auto simp: data_payload_def prefix_def split: if_splits)
    have "j \<notin> set payloads"
      using whole l sp l' by blast
    then have "parse j = None"
      using known by blast
    then show ?thesis
      using Some by (simp add: line_updates_def anthropic_line_def openai_line_def)
  qed
qed

text \<open>The Messages fixture meets both conditions.\<close>

lemma messages_lines:
  "split_nl (concat messages_chunks) =
     [''event: message_start'', ''data: '' @ messages_payloads ! 0, [],
      ''event: message_delta'', ''data: '' @ messages_payloads ! 1, [],
      ''event: message_stop'', ''data: '' @ messages_payloads ! 2, [], []]"
  by code_simp

lemma messages_inert:
  "\<forall>l\<in>set (split_nl (concat messages_chunks)).
     \<forall>l'. strict_prefix l' l \<longrightarrow> line_updates messages_parse ''anthropic'' l' = []"
proof (rule inert_by_payloads[where payloads = messages_payloads])
  fix j
  assume "messages_parse j \<noteq> None"
  then show "j \<in> set messages_payloads"
    by (auto simp: messages_parse_def messages_payloads_def split: if_splits)
next
  show "\<forall>l\<in>set (split_nl (concat messages_chunks)).
          \<forall>j\<in>set messages_payloads. \<not> strict_prefix (''data: '' @ j) l"
    unfolding messages_lines by (simp add: messages_payloads_def)
qed

lemma messages_events:
  "upd_seq (line_updates messages_parse ''anthropic'') (concat messages_chunks) =
     anthropic_updates (message_start (JObj messages_start_usage)) @
     anthropic_updates (message_delta (JObj messages_delta_usage))"
  by code_simp

lemma anthropic_round_trip_fixture:
  "normalizeUsageSnapshot (\<lambda>v. None) (JObj (stream_usage messages_parse ''anthropic'' messages_chunks))
     = Inr (JObj [(''input_tokens'', JNum 25), (''output_tokens'', JNum 15),
                  (''cache_creation_input_tokens'', JNum 0),
                  (''cache_read_input_tokens'', JNum 300)])
   \<and> normalizeUsageSnapshot (\<lambda>v. None)
       (or_js (getp (JObj [(''usage'',
          buffered_usage (JObj messages_start_usage) (JObj messages_delta_usage))]) ''usage'')
          (JObj []))
     = Inr (JObj [(''input_tokens'', JNum 25), (''output_tokens'', JNum 15),
                  (''cache_creation_input_tokens'', JNum 0),
                  (''cache_read_input_tokens'', JNum 300)])"
  unfolding anthropic_round_trip[OF messages_inert messages_events]
  by (simp add: normalizeUsageSnapshot_def toNumber_def raw_input_def raw_output_def
      raw_cache_read_def rawCacheCreateTokens_def raw_ephemeral5m_def raw_ephemeral1h_def
      coalesce_def opt_getp_def nullish_def or_js_def buffered_usage_def
      messages_start_usage_def messages_delta_usage_def)

text \<open>The properties that the OpenAI parser has collected at the end of the Responses
  fixture.\<close>

lemma stream_responses_acc:
  "stream_usage responses_parse ''openai'' responses_chunks =
     [(''input_tokens'', JNum 100), (''output_tokens'', JNum 20), (''total_tokens'', JNum 120)]"
  by code_simp

text \<open>
  Claim C6. The snapshot of a stream, whatever its chunks, is to equal the snapshot of
  the buffered response with the same totals. On the OpenAI path it does not:
  \<open>_parseOpenAIUsageFromSSE\<close> copies the input, output and total counts only, so the
  cached tokens that \<open>_normalizeUsageSnapshot\<close> reads from
  \<open>input_tokens_details.cached_tokens\<close> on the buffered path are lost. For the
  Responses fixture the streamed snapshot has 0 cache-read tokens, the buffered one 80.
\<close>

theorem openai_stream_drops_cached_tokens:
  "normalizeUsageSnapshot (\<lambda>v. None)
     (JObj (stream_usage responses_parse ''openai'' responses_chunks))
   = Inr (JObj [(''input_tokens'', JNum 100), (''output_tokens'', JNum 20),
                (''cache_creation_input_tokens'', JNum 0),
                (''cache_read_input_tokens'', JNum 0)])
 \<and> normalizeUsageSnapshot (\<lambda>v. None)
     (or_js (getp (JObj [(''id'', JStr ''resp_1''), (''usage'', responses_usage)]) ''usage'')
        (JObj []))
   = Inr (JObj [(''input_tokens'', JNum 100), (''output_tokens'', JNum 20),
                (''cache_creation_input_tokens'', JNum 0),
                (''cache_read_input_tokens'', JNum 80)])"
  unfolding stream_responses_acc
  by (simp add: normalizeUsageSnapshot_def toNumber_def raw_input_def raw_output_def
      raw_cache_read_def rawCacheCreateTokens_def raw_ephemeral5m_def raw_ephemeral1h_def
      coalesce_def opt_getp_def nullish_def or_js_def responses_usage_def)

end
